theory Spec2Isabelle
  imports Main
begin

section \<open>JavaScript values the controllers compute with\<close>

text \<open>
  Route and query parameters reach the controllers as strings and are read with
  \<open>parseInt\<close>. A JavaScript number that \<open>parseInt\<close> returns is either \<open>NaN\<close> or an
  integer; the model keeps the integer exactly (the source's doubles are exact below
  \<open>2^53\<close>). Strings are lists of code units.
\<close>

datatype jsnum = NaN | Num int

definition StrWhiteSpaceChar :: "char \<Rightarrow> bool" where
  "StrWhiteSpaceChar c =
     (let n = (of_char c :: nat) in (9 \<le> n \<and> n \<le> 13) \<or> n = 32 \<or> n = 160)"

definition digit_of :: "char \<Rightarrow> nat option" where
  "digit_of c =
     (let n = (of_char c :: nat) in
      if 48 \<le> n \<and> n \<le> 57 then Some (n - 48)
      else if 97 \<le> n \<and> n \<le> 102 then Some (n - 87)
      else if 65 \<le> n \<and> n \<le> 70 then Some (n - 55)
      else None)"

fun digits :: "nat \<Rightarrow> string \<Rightarrow> nat list" where
  "digits r [] = []"
| "digits r (c # cs) =
     (case digit_of c of
        None \<Rightarrow> []
      | Some d \<Rightarrow> if d < r then d # digits r cs else [])"

text \<open>
  \<open>parseInt(string)\<close> with no radix: leading white space is skipped, a sign is read,
  a \<open>0x\<close> prefix selects radix 16, and the longest prefix of digits is the value;
  no digit at all gives \<open>NaN\<close>.
\<close>

definition parseInt :: "string \<Rightarrow> jsnum" where
  "parseInt str =
     (let s1 = dropWhile StrWhiteSpaceChar str;
          neg = (case s1 of [] \<Rightarrow> False | c # _ \<Rightarrow> c = CHR ''-'');
          s2 = (case s1 of [] \<Rightarrow> []
                | c # r \<Rightarrow> if c = CHR ''-'' \<or> c = CHR ''+'' then r else s1);
          hex = (case s2 of
                   a # b # _ \<Rightarrow> a = CHR ''0'' \<and> (b = CHR ''x'' \<or> b = CHR ''X'')
                 | _ \<Rightarrow> False);
          radix = (if hex then 16 else 10);
          s3 = (if hex then drop 2 s2 else s2);
          ds = digits radix s3
      in if ds = [] then NaN
         else Num ((if neg then - 1 else 1) * int (foldl (\<lambda>a d. a * radix + d) 0 ds)))"

section \<open>Entities and the entity store\<close>

text \<open>
  The rows of the tables \<open>posts\<close>, \<open>comments\<close> and \<open>likes\<close> as the model classes
  declare them (\<open>Post.init\<close>, \<open>Comment.init\<close>, \<open>Like.init\<close>). Optional columns
  are options; timestamps are integers (milliseconds).
\<close>

record post =
  post_id :: int
  post_title :: string
  post_content :: string
  post_excerpt :: "string option"
  post_imageUrl :: "string option"
  post_isPublished :: bool
  post_publishedAt :: "int option"
  post_viewCount :: int
  post_authorId :: int
  post_createdAt :: int
  post_updatedAt :: int

record comment =
  comment_id :: int
  comment_content :: string
  comment_postId :: int
  comment_authorId :: int
  comment_parentId :: "int option"
  comment_isApproved :: bool
  comment_createdAt :: int
  comment_updatedAt :: int

record like =
  like_id :: int
  like_userId :: int
  like_postId :: int
  like_createdAt :: int
  like_updatedAt :: int

text \<open>
  The store holds the three tables, each in the order the store yields its rows, and the
  next value of each \<open>autoIncrement\<close> sequence. The \<open>users\<close> table is not part of the
  model: the acting user is the one the authentication middleware has looked up.
\<close>

record store =
  posts :: "post list"
  comments :: "comment list"
  likes :: "like list"
  nextPostId :: int
  nextCommentId :: int
  nextLikeId :: int

text \<open>\<open>req.user\<close>, set by the authentication middleware.\<close>

record user_info =
  user_id :: int
  user_email :: string
  user_username :: string

text \<open>What a rejected statement raises; every controller catches it and answers 500.\<close>

datatype db_error = DatabaseError | ValidationError | ForeignKeyConstraintError
  | UniqueConstraintError

section \<open>Responses\<close>

record post_summary =
  ps_post :: post
  ps_comments :: "(int \<times> string \<times> int) list"
  ps_likes :: "int list"
  ps_commentCount :: nat
  ps_likeCount :: nat
  ps_isLiked :: bool

record comment_tree =
  ct_comment :: comment
  ct_replies :: "comment list"

text \<open>
  The pagination object; of its fields the model keeps \<open>currentPage\<close> and
  \<open>hasPrevPage\<close>, the two that do not depend on the store's row count.
\<close>

record pagination =
  currentPage :: jsnum
  hasPrevPage :: bool

datatype body =
    ErrorBody string
  | MessageBody string
  | LikedBody string bool
  | PostBody string "post option"
  | CommentBody string "comment option"
  | PostDetailBody post "comment list" nat bool
  | PostsBody "post_summary list" pagination
  | CommentsBody "comment_tree list" pagination

record response =
  status :: nat
  body :: body

definition json :: "nat \<Rightarrow> body \<Rightarrow> response" where
  "json st b = \<lparr>status = st, body = b\<rparr>"

definition internal_error :: response where
  "internal_error = json 500 (ErrorBody ''Internal server error'')"

definition unauthenticated :: response where
  "unauthenticated = json 401 (ErrorBody ''User not authenticated'')"

section \<open>Store operations\<close>

text \<open>
  \<open>Model.findByPk\<close>: a \<open>NaN\<close> key is written into the statement as it is and the
  store rejects the statement.
\<close>

definition Post_findByPk :: "jsnum \<Rightarrow> store \<Rightarrow> db_error + post option" where
  "Post_findByPk k s =
     (case k of
        NaN \<Rightarrow> Inl DatabaseError
      | Num n \<Rightarrow> Inr (find (\<lambda>p. post_id p = n) (posts s)))"

definition Comment_findByPk :: "jsnum \<Rightarrow> store \<Rightarrow> db_error + comment option" where
  "Comment_findByPk k s =
     (case k of
        NaN \<Rightarrow> Inl DatabaseError
      | Num n \<Rightarrow> Inr (find (\<lambda>c. comment_id c = n) (comments s)))"

text \<open>\<open>Like.findOne({ where: { postId, userId } })\<close> and \<open>Like.count\<close>.\<close>

definition Like_findOne :: "int \<Rightarrow> int \<Rightarrow> store \<Rightarrow> like option" where
  "Like_findOne pid uid s =
     find (\<lambda>l. like_postId l = pid \<and> like_userId l = uid) (likes s)"

definition Like_count :: "int \<Rightarrow> store \<Rightarrow> nat" where
  "Like_count pid s = length (filter (\<lambda>l. like_postId l = pid) (likes s))"

definition Comment_count :: "int \<Rightarrow> store \<Rightarrow> nat" where
  "Comment_count pid s = length (filter (\<lambda>c. comment_postId c = pid) (comments s))"

text \<open>
  \<open>Like.create\<close>: the insert draws the next id from the sequence, and the unique index
  on \<open>(userId, postId)\<close> rejects a second row for the pair; the sequence keeps the
  value drawn by a rejected insert.
\<close>

definition Like_create :: "int \<Rightarrow> int \<Rightarrow> int \<Rightarrow> store \<Rightarrow> (db_error + like) \<times> store" where
  "Like_create pid uid now s =
     (let row = \<lparr>like_id = nextLikeId s, like_userId = uid, like_postId = pid,
                 like_createdAt = now, like_updatedAt = now\<rparr>;
          s1 = s\<lparr>nextLikeId := nextLikeId s + 1\<rparr>
      in if \<exists>l \<in> set (likes s). like_userId l = uid \<and> like_postId l = pid
         then (Inl UniqueConstraintError, s1)
         else (Inr row, s1\<lparr>likes := likes s @ [row]\<rparr>))"

text \<open>
  \<open>instance.destroy()\<close> deletes by primary key; deleting a row that is already gone
  deletes nothing and raises nothing.
\<close>

definition Like_destroy :: "like \<Rightarrow> store \<Rightarrow> store" where
  "Like_destroy l s = s\<lparr>likes := filter (\<lambda>x. like_id x \<noteq> like_id l) (likes s)\<rparr>"

section \<open>The like toggle\<close>

text \<open>
  \<open>likePost\<close> reads (the post, then the existing like) and then writes. The two halves
  are separate awaited steps of the source, so they are separate functions here: the
  choice made by the reads is a value, and \<open>likePost\<close> is the write applied to the
  choice in the same store.
\<close>

datatype like_choice =
    LikeUnauthenticated
  | LikeFailed
  | LikePostNotFound
  | LikeDestroy like
  | LikeCreate int int

definition likePost_read :: "user_info option \<Rightarrow> string \<Rightarrow> store \<Rightarrow> like_choice" where
  "likePost_read user ident s =
     (case user of
        None \<Rightarrow> LikeUnauthenticated
      | Some u \<Rightarrow>
          (case Post_findByPk (parseInt ident) s of
             Inl e \<Rightarrow> LikeFailed
           | Inr None \<Rightarrow> LikePostNotFound
           | Inr (Some p) \<Rightarrow>
               (case Like_findOne (post_id p) (user_id u) s of
                  Some existingLike \<Rightarrow> LikeDestroy existingLike
                | None \<Rightarrow> LikeCreate (post_id p) (user_id u))))"

definition likePost_write :: "like_choice \<Rightarrow> int \<Rightarrow> store \<Rightarrow> response \<times> store" where
  "likePost_write ch now s =
     (case ch of
        LikeUnauthenticated \<Rightarrow> (unauthenticated, s)
      | LikeFailed \<Rightarrow> (internal_error, s)
      | LikePostNotFound \<Rightarrow> (json 404 (ErrorBody ''Post not found''), s)
      | LikeDestroy existingLike \<Rightarrow>
          (json 200 (LikedBody ''Post unliked'' False), Like_destroy existingLike s)
      | LikeCreate pid uid \<Rightarrow>
          (case Like_create pid uid now s of
             (Inl e, s') \<Rightarrow> (internal_error, s')
           | (Inr l, s') \<Rightarrow> (json 200 (LikedBody ''Post liked'' True), s')))"

definition likePost :: "user_info option \<Rightarrow> string \<Rightarrow> int \<Rightarrow> store \<Rightarrow> response \<times> store" where
  "likePost user ident now s = likePost_write (likePost_read user ident s) now s"

section \<open>What lies outside the repository\<close>

text \<open>
  What the controllers use and this repository does not contain: the store's
  \<open>ILIKE\<close> operator (pattern, then value), the store's collation order on text, and
  the \<open>isUrl\<close> validator of the model layer.
\<close>

record externals =
  ext_iLike :: "string \<Rightarrow> string \<Rightarrow> bool"
  ext_collate :: "string \<Rightarrow> string \<Rightarrow> bool"
  ext_isUrl :: "string \<Rightarrow> bool"

section \<open>Comments\<close>

definition js_sub :: "jsnum \<Rightarrow> jsnum \<Rightarrow> jsnum" where
  "js_sub a b = (case (a, b) of (Num x, Num y) \<Rightarrow> Num (x - y) | _ \<Rightarrow> NaN)"

definition js_mul :: "jsnum \<Rightarrow> jsnum \<Rightarrow> jsnum" where
  "js_mul a b = (case (a, b) of (Num x, Num y) \<Rightarrow> Num (x * y) | _ \<Rightarrow> NaN)"

definition js_gt :: "jsnum \<Rightarrow> jsnum \<Rightarrow> bool" where
  "js_gt a b = (case (a, b) of (Num x, Num y) \<Rightarrow> x > y | _ \<Rightarrow> False)"

text \<open>
  \<open>LIMIT\<close> and \<open>OFFSET\<close> as the store applies them: both are 64-bit integers
  there, and the statement is rejected when either is \<open>NaN\<close>, negative or beyond
  that range.
\<close>

definition limit_offset :: "jsnum \<Rightarrow> jsnum \<Rightarrow> 'a list \<Rightarrow> db_error + 'a list" where
  "limit_offset lim off rows =
     (case (lim, off) of
        (Num l, Num k) \<Rightarrow>
          if l < 0 \<or> k < 0 \<or> 9223372036854775807 < l \<or> 9223372036854775807 < k
          then Inl DatabaseError
          else Inr (take (nat l) (drop (nat k) rows))
      | _ \<Rightarrow> Inl DatabaseError)"

text \<open>
  The query of \<open>getComments\<close>: the rows of the post with \<open>parentId\<close> null, ordered by
  \<open>createdAt\<close> \<open>DESC\<close>, cut to the window, each joined with the rows whose
  \<open>parentId\<close> is its id. The \<open>replies\<close> include carries an \<open>order\<close> by
  \<open>createdAt\<close> \<open>ASC\<close> of its own, but the include is joined, not fetched
  separately, and the query layer orders the statement by the outer \<open>order\<close> only:
  the joined rows come in the order the store yields them.
\<close>

definition replies_of :: "comment \<Rightarrow> store \<Rightarrow> comment list" where
  "replies_of c s = filter (\<lambda>r. comment_parentId r = Some (comment_id c)) (comments s)"

definition Comment_findAndCountAll ::
  "int \<Rightarrow> jsnum \<Rightarrow> jsnum \<Rightarrow> store \<Rightarrow> db_error + comment_tree list" where
  "Comment_findAndCountAll pid lim off s =
     (case limit_offset lim off
             (sort_key (\<lambda>c. - comment_createdAt c)
                (filter (\<lambda>c. comment_postId c = pid \<and> comment_parentId c = None)
                   (comments s))) of
        Inl e \<Rightarrow> Inl e
      | Inr rows \<Rightarrow>
          Inr (map (\<lambda>c. \<lparr>ct_comment = c, ct_replies = replies_of c s\<rparr>) rows))"

definition getComments ::
  "string \<Rightarrow> string option \<Rightarrow> string option \<Rightarrow> store \<Rightarrow> response" where
  "getComments postId page limit s =
     (let pageNumber = parseInt (case page of None \<Rightarrow> ''1'' | Some p \<Rightarrow> p);
          limitNumber = parseInt (case limit of None \<Rightarrow> ''20'' | Some l \<Rightarrow> l);
          offset = js_mul (js_sub pageNumber (Num 1)) limitNumber
      in case Post_findByPk (parseInt postId) s of
           Inl e \<Rightarrow> internal_error
         | Inr None \<Rightarrow> json 404 (ErrorBody ''Post not found'')
         | Inr (Some p) \<Rightarrow>
             (case parseInt postId of
                NaN \<Rightarrow> internal_error
              | Num pid \<Rightarrow>
                  (case Comment_findAndCountAll pid limitNumber offset s of
                     Inl e \<Rightarrow> internal_error
                   | Inr rows \<Rightarrow>
                       json 200 (CommentsBody rows
                         \<lparr>currentPage = pageNumber,
                          hasPrevPage = js_gt pageNumber (Num 1)\<rparr>))))"

text \<open>
  \<open>Comment.create\<close>: the model validates the length of \<open>content\<close> before any statement
  is sent; the insert draws the next id, and the foreign keys on \<open>postId\<close> and
  \<open>parentId\<close> reject a row that references nothing. \<open>isApproved\<close> takes its default.
\<close>

definition Comment_create ::
  "string \<Rightarrow> int \<Rightarrow> int option \<Rightarrow> int \<Rightarrow> int \<Rightarrow> store \<Rightarrow> (db_error + comment) \<times> store" where
  "Comment_create content postId parentId authorId now s =
     (let row = \<lparr>comment_id = nextCommentId s, comment_content = content,
                 comment_postId = postId, comment_authorId = authorId,
                 comment_parentId = parentId, comment_isApproved = True,
                 comment_createdAt = now, comment_updatedAt = now\<rparr>;
          s1 = s\<lparr>nextCommentId := nextCommentId s + 1\<rparr>
      in if length content < 1 \<or> 5000 < length content then (Inl ValidationError, s)
         else if find (\<lambda>p. post_id p = postId) (posts s) = None
           then (Inl ForeignKeyConstraintError, s1)
         else if (case parentId of
                    None \<Rightarrow> False
                  | Some q \<Rightarrow> find (\<lambda>c. comment_id c = q) (comments s) = None)
           then (Inl ForeignKeyConstraintError, s1)
         else (Inr row, s1\<lparr>comments := comments s @ [row]\<rparr>))"

text \<open>
  The parent check of \<open>createComment\<close>, entered when \<open>parentId\<close> is truthy: the value
  is \<open>None\<close> when the check passes or is skipped, and the 404 response otherwise.
\<close>

definition check_parent :: "int \<Rightarrow> int option \<Rightarrow> store \<Rightarrow> response option" where
  "check_parent postId parentId s =
     (case parentId of
        None \<Rightarrow> None
      | Some q \<Rightarrow>
          if q = 0 then None
          else (case Comment_findByPk (Num q) s of
                  Inl e \<Rightarrow> Some internal_error
                | Inr None \<Rightarrow> Some (json 404 (ErrorBody ''Parent comment not found''))
                | Inr (Some parentComment) \<Rightarrow>
                    if comment_postId parentComment \<noteq> postId
                    then Some (json 404 (ErrorBody ''Parent comment not found''))
                    else None))"

definition createComment ::
  "user_info option \<Rightarrow> string \<Rightarrow> int \<Rightarrow> int option \<Rightarrow> int \<Rightarrow> store \<Rightarrow> response \<times> store" where
  "createComment user content postId parentId now s =
     (case user of
        None \<Rightarrow> (unauthenticated, s)
      | Some u \<Rightarrow>
          (case Post_findByPk (Num postId) s of
             Inl e \<Rightarrow> (internal_error, s)
           | Inr None \<Rightarrow> (json 404 (ErrorBody ''Post not found''), s)
           | Inr (Some p) \<Rightarrow>
               (case check_parent postId parentId s of
                  Some r \<Rightarrow> (r, s)
                | None \<Rightarrow>
                    (case Comment_create content postId parentId (user_id u) now s of
                       (Inl e, s') \<Rightarrow> (internal_error, s')
                     | (Inr c, s') \<Rightarrow>
                         (case Comment_findByPk (Num (comment_id c)) s' of
                            Inl e \<Rightarrow> (internal_error, s')
                          | Inr createdComment \<Rightarrow>
                              (json 201 (CommentBody ''Comment created successfully''
                                 createdComment), s'))))))"

text \<open>
  \<open>comment.update({ content })\<close>: an undefined value is dropped, an unchanged row is
  not written, and a changed \<open>content\<close> is validated before it is written.
\<close>

definition Comment_update ::
  "comment \<Rightarrow> string option \<Rightarrow> int \<Rightarrow> store \<Rightarrow> db_error + store" where
  "Comment_update c content now s =
     (case content of
        None \<Rightarrow> Inr s
      | Some v \<Rightarrow>
          if v = comment_content c then Inr s
          else if length v < 1 \<or> 5000 < length v then Inl ValidationError
          else Inr (s\<lparr>comments :=
                 map (\<lambda>x. if comment_id x = comment_id c
                          then x\<lparr>comment_content := v, comment_updatedAt := now\<rparr>
                          else x) (comments s)\<rparr>))"

definition updateComment ::
  "user_info option \<Rightarrow> string \<Rightarrow> string option \<Rightarrow> int \<Rightarrow> store \<Rightarrow> response \<times> store" where
  "updateComment user ident content now s =
     (case user of
        None \<Rightarrow> (unauthenticated, s)
      | Some u \<Rightarrow>
          (case Comment_findByPk (parseInt ident) s of
             Inl e \<Rightarrow> (internal_error, s)
           | Inr None \<Rightarrow> (json 404 (ErrorBody ''Comment not found''), s)
           | Inr (Some c) \<Rightarrow>
               if comment_authorId c \<noteq> user_id u
               then (json 403 (ErrorBody ''Not authorized to update this comment''), s)
               else (case Comment_update c content now s of
                       Inl e \<Rightarrow> (internal_error, s)
                     | Inr s' \<Rightarrow>
                         (case Comment_findByPk (Num (comment_id c)) s' of
                            Inl e \<Rightarrow> (internal_error, s')
                          | Inr updatedComment \<Rightarrow>
                              (json 200 (CommentBody ''Comment updated successfully''
                                 updatedComment), s')))))"

text \<open>
  Deleting comments cascades along \<open>parentId\<close> (\<open>onDelete: 'CASCADE'\<close>): the rows
  that reference a deleted row go too, and so on.
\<close>

function cascade :: "int list \<Rightarrow> comment list \<Rightarrow> comment list" where
  "cascade ids cs =
     (if \<exists>c \<in> set cs. comment_parentId c \<in> Some ` set ids
      then cascade
             (map comment_id (filter (\<lambda>c. comment_parentId c \<in> Some ` set ids) cs))
             (filter (\<lambda>c. comment_parentId c \<notin> Some ` set ids) cs)
      else cs)"
  by pat_completeness auto
termination
proof (relation "measure (\<lambda>(ids, cs). length cs)")
  show "wf (measure (\<lambda>(ids, cs). length cs))" by simp
next
  fix ids :: "int list" and cs :: "comment list"
  assume "\<exists>c \<in> set cs. comment_parentId c \<in> Some ` set ids"
  then obtain c where "c \<in> set cs" and "\<not> comment_parentId c \<notin> Some ` set ids"
    by auto
  then have "length (filter (\<lambda>c. comment_parentId c \<notin> Some ` set ids) cs) < length cs"
    by (rule length_filter_less)
  then show "((map comment_id (filter (\<lambda>c. comment_parentId c \<in> Some ` set ids) cs),
               filter (\<lambda>c. comment_parentId c \<notin> Some ` set ids) cs), (ids, cs))
             \<in> measure (\<lambda>(ids, cs). length cs)"
    by simp
qed

definition Comment_destroy :: "comment \<Rightarrow> store \<Rightarrow> store" where
  "Comment_destroy c s =
     s\<lparr>comments :=
         cascade [comment_id c] (filter (\<lambda>x. comment_id x \<noteq> comment_id c) (comments s))\<rparr>"

definition deleteComment ::
  "user_info option \<Rightarrow> string \<Rightarrow> store \<Rightarrow> response \<times> store" where
  "deleteComment user ident s =
     (case user of
        None \<Rightarrow> (unauthenticated, s)
      | Some u \<Rightarrow>
          (case Comment_findByPk (parseInt ident) s of
             Inl e \<Rightarrow> (internal_error, s)
           | Inr None \<Rightarrow> (json 404 (ErrorBody ''Comment not found''), s)
           | Inr (Some c) \<Rightarrow>
               if comment_authorId c \<noteq> user_id u
               then (json 403 (ErrorBody ''Not authorized to delete this comment''), s)
               else (json 200 (MessageBody ''Comment deleted successfully''),
                     Comment_destroy c s)))"

section \<open>Posts\<close>

datatype sortOrder = ASC | DESC

record postQuery =
  q_page :: "string option"
  q_limit :: "string option"
  q_sortBy :: "string option"
  q_sortOrder :: "sortOrder option"
  q_search :: "string option"
  q_tags :: "string option"
  q_authorId :: "string option"

record whereClause =
  w_isPublished :: bool
  w_search :: "string option"
  w_tags :: "string list option"
  w_authorId :: "jsnum option"

fun split_on :: "char \<Rightarrow> string \<Rightarrow> string list" where
  "split_on d [] = [[]]"
| "split_on d (c # cs) =
     (if c = d then [] # split_on d cs
      else (case split_on d cs of
              [] \<Rightarrow> [[c]]
            | w # ws \<Rightarrow> (c # w) # ws))"

definition trim :: "string \<Rightarrow> string" where
  "trim str = rev (dropWhile StrWhiteSpaceChar (rev (dropWhile StrWhiteSpaceChar str)))"

text \<open>The where clause \<open>getPosts\<close> builds; an empty string is falsy and adds no condition.\<close>

definition build_where :: "postQuery \<Rightarrow> whereClause" where
  "build_where q =
     \<lparr>w_isPublished = True,
      w_search = (case q_search q of
                    None \<Rightarrow> None
                  | Some x \<Rightarrow> if x = [] then None else Some x),
      w_tags = (case q_tags q of
                  None \<Rightarrow> None
                | Some t \<Rightarrow> if t = [] then None else Some (map trim (split_on CHR '','' t))),
      w_authorId = (case q_authorId q of
                      None \<Rightarrow> None
                    | Some a \<Rightarrow> if a = [] then None else Some (parseInt a))\<rparr>"

datatype sqlval = SqlNull | SqlInt int | SqlBool bool | SqlText string

definition sql_opt :: "('a \<Rightarrow> sqlval) \<Rightarrow> 'a option \<Rightarrow> sqlval" where
  "sql_opt f v = (case v of None \<Rightarrow> SqlNull | Some x \<Rightarrow> f x)"

text \<open>The columns \<open>Post.init\<close> declares, by name; any other name is no column.\<close>

definition post_column :: "string \<Rightarrow> (post \<Rightarrow> sqlval) option" where
  "post_column c =
     (if c = ''id'' then Some (\<lambda>p. SqlInt (post_id p))
      else if c = ''title'' then Some (\<lambda>p. SqlText (post_title p))
      else if c = ''content'' then Some (\<lambda>p. SqlText (post_content p))
      else if c = ''excerpt'' then Some (\<lambda>p. sql_opt SqlText (post_excerpt p))
      else if c = ''imageUrl'' then Some (\<lambda>p. sql_opt SqlText (post_imageUrl p))
      else if c = ''isPublished'' then Some (\<lambda>p. SqlBool (post_isPublished p))
      else if c = ''publishedAt'' then Some (\<lambda>p. sql_opt SqlInt (post_publishedAt p))
      else if c = ''viewCount'' then Some (\<lambda>p. SqlInt (post_viewCount p))
      else if c = ''authorId'' then Some (\<lambda>p. SqlInt (post_authorId p))
      else if c = ''createdAt'' then Some (\<lambda>p. SqlInt (post_createdAt p))
      else if c = ''updatedAt'' then Some (\<lambda>p. SqlInt (post_updatedAt p))
      else None)"

text \<open>The store's order on the values of one column: null sorts after every value.\<close>

fun sql_le :: "(string \<Rightarrow> string \<Rightarrow> bool) \<Rightarrow> sqlval \<Rightarrow> sqlval \<Rightarrow> bool" where
  "sql_le coll v SqlNull = True"
| "sql_le coll SqlNull v = False"
| "sql_le coll (SqlInt x) (SqlInt y) = (x \<le> y)"
| "sql_le coll (SqlBool x) (SqlBool y) = (x \<le> y)"
| "sql_le coll (SqlText x) (SqlText y) = coll x y"
| "sql_le coll v w = True"

fun insert_by :: "('a \<Rightarrow> 'a \<Rightarrow> bool) \<Rightarrow> 'a \<Rightarrow> 'a list \<Rightarrow> 'a list" where
  "insert_by le x [] = [x]"
| "insert_by le x (y # ys) = (if le x y then x # y # ys else y # insert_by le x ys)"

definition order_by :: "('a \<Rightarrow> 'a \<Rightarrow> bool) \<Rightarrow> 'a list \<Rightarrow> 'a list" where
  "order_by le xs = foldr (insert_by le) xs []"

definition where_matches :: "externals \<Rightarrow> whereClause \<Rightarrow> post \<Rightarrow> bool" where
  "where_matches X w p =
     ((post_isPublished p = w_isPublished w)
      \<and> (case w_search w of
            None \<Rightarrow> True
          | Some x \<Rightarrow>
              ext_iLike X (''%'' @ x @ ''%'') (post_title p)
              \<or> ext_iLike X (''%'' @ x @ ''%'') (post_content p))
      \<and> (case w_authorId w of
            Some (Num a) \<Rightarrow> post_authorId p = a
          | _ \<Rightarrow> True))"

text \<open>
  The listing query of \<open>getPosts\<close>. The store rejects the statement when it names a
  column the table does not have (an unknown \<open>sortBy\<close>; the \<open>tags\<close> condition, since
  \<open>Post.init\<close> declares no such column), when \<open>authorId\<close> is \<open>NaN\<close>, and when the
  window is not one the store accepts.
\<close>

definition Post_findAndCountAll ::
  "externals \<Rightarrow> whereClause \<Rightarrow> jsnum \<Rightarrow> jsnum \<Rightarrow> string \<Rightarrow> sortOrder \<Rightarrow> store
     \<Rightarrow> db_error + post list" where
  "Post_findAndCountAll X w lim off sortBy sortOrder s =
     (if w_tags w \<noteq> None then Inl DatabaseError
      else if w_authorId w = Some NaN then Inl DatabaseError
      else (case post_column sortBy of
              None \<Rightarrow> Inl DatabaseError
            | Some col \<Rightarrow>
                limit_offset lim off
                  (order_by
                     (\<lambda>a b. case sortOrder of
                               ASC \<Rightarrow> sql_le (ext_collate X) (col a) (col b)
                             | DESC \<Rightarrow> sql_le (ext_collate X) (col b) (col a))
                     (filter (where_matches X w) (posts s)))))"

text \<open>
  The body of the \<open>posts.rows.map\<close> callback for one post: the summary, and the number
  of store calls it awaits (\<open>Comment.count\<close>, \<open>Like.count\<close> and, for a signed-in
  viewer, \<open>Like.findOne\<close>).
\<close>

definition post_with_counts :: "user_info option \<Rightarrow> store \<Rightarrow> post \<Rightarrow> post_summary \<times> nat" where
  "post_with_counts user s p =
     (let commentCount = Comment_count (post_id p) s;
          likeCount = Like_count (post_id p) s;
          isLiked = (case user of
                       None \<Rightarrow> False
                     | Some u \<Rightarrow> Like_findOne (post_id p) (user_id u) s \<noteq> None)
      in (\<lparr>ps_post = p,
           ps_comments =
             map (\<lambda>c. (comment_id c, comment_content c, comment_createdAt c))
               (filter (\<lambda>c. comment_postId c = post_id p) (comments s)),
           ps_likes = map like_id (filter (\<lambda>l. like_postId l = post_id p) (likes s)),
           ps_commentCount = commentCount,
           ps_likeCount = likeCount,
           ps_isLiked = isLiked\<rparr>,
          (case user of None \<Rightarrow> 2 | Some u \<Rightarrow> 3)))"

text \<open>
  \<open>getPosts\<close> returns the response and the number of store calls the request awaited:
  one for \<open>Post.findAndCountAll\<close>, then those of every callback.
\<close>

definition getPosts ::
  "externals \<Rightarrow> user_info option \<Rightarrow> postQuery \<Rightarrow> store \<Rightarrow> response \<times> nat" where
  "getPosts X user q s =
     (let pageNumber = parseInt (case q_page q of None \<Rightarrow> ''1'' | Some p \<Rightarrow> p);
          limitNumber = parseInt (case q_limit q of None \<Rightarrow> ''10'' | Some l \<Rightarrow> l);
          sortBy = (case q_sortBy q of None \<Rightarrow> ''createdAt'' | Some c \<Rightarrow> c);
          sortOrder = (case q_sortOrder q of None \<Rightarrow> DESC | Some d \<Rightarrow> d);
          offset = js_mul (js_sub pageNumber (Num 1)) limitNumber
      in case Post_findAndCountAll X (build_where q) limitNumber offset sortBy sortOrder s of
           Inl e \<Rightarrow> (internal_error, 1)
         | Inr rows \<Rightarrow>
             (let postsWithCounts = map (post_with_counts user s) rows
              in (json 200 (PostsBody (map fst postsWithCounts)
                    \<lparr>currentPage = pageNumber, hasPrevPage = js_gt pageNumber (Num 1)\<rparr>),
                  1 + sum_list (map snd postsWithCounts))))"

text \<open>
  \<open>post.save()\<close> after \<open>viewCount += 1\<close>: the row is written with the new count and
  \<open>updatedAt\<close>; the column is a 32-bit \<open>INTEGER\<close> and the store rejects a larger value.
\<close>

definition Post_save_viewCount :: "post \<Rightarrow> int \<Rightarrow> store \<Rightarrow> db_error + post \<times> store" where
  "Post_save_viewCount p now s =
     (if 2147483647 < post_viewCount p then Inl DatabaseError
      else Inr (p\<lparr>post_updatedAt := now\<rparr>,
                s\<lparr>posts := map (\<lambda>x. if post_id x = post_id p
                                    then x\<lparr>post_viewCount := post_viewCount p,
                                           post_updatedAt := now\<rparr>
                                    else x) (posts s)\<rparr>))"

text \<open>\<open>post.getCommentsWithAuthors()\<close>: every comment of the post, oldest first.\<close>

definition getCommentsWithAuthors :: "post \<Rightarrow> store \<Rightarrow> comment list" where
  "getCommentsWithAuthors p s =
     sort_key comment_createdAt (filter (\<lambda>c. comment_postId c = post_id p) (comments s))"

definition getPostById ::
  "user_info option \<Rightarrow> string \<Rightarrow> int \<Rightarrow> store \<Rightarrow> response \<times> store" where
  "getPostById user ident now s =
     (case Post_findByPk (parseInt ident) s of
        Inl e \<Rightarrow> (internal_error, s)
      | Inr None \<Rightarrow> (json 404 (ErrorBody ''Post not found''), s)
      | Inr (Some p) \<Rightarrow>
          if \<not> post_isPublished p then (json 404 (ErrorBody ''Post not found''), s)
          else (case Post_save_viewCount (p\<lparr>post_viewCount := post_viewCount p + 1\<rparr>) now s of
                  Inl e \<Rightarrow> (internal_error, s)
                | Inr (post, s') \<Rightarrow>
                    (let commentsWithAuthors = getCommentsWithAuthors post s';
                         likeCount = Like_count (post_id post) s';
                         isLiked = (case user of
                                      None \<Rightarrow> False
                                    | Some u \<Rightarrow>
                                        Like_findOne (post_id post) (user_id u) s' \<noteq> None)
                     in (json 200 (PostDetailBody post commentsWithAuthors likeCount isLiked),
                         s'))))"

text \<open>
  The \<open>beforeCreate\<close> hook of \<open>Post.init\<close>: a missing or empty excerpt is derived from
  a non-empty content.
\<close>

definition beforeCreate :: "post \<Rightarrow> post" where
  "beforeCreate p =
     (if (post_excerpt p = None \<or> post_excerpt p = Some []) \<and> post_content p \<noteq> []
      then p\<lparr>post_excerpt := Some (take 200 (post_content p) @ ''...'')\<rparr>
      else p)"

text \<open>
  \<open>Post.create\<close>: the model validates \<open>title\<close>, \<open>content\<close> and \<open>imageUrl\<close>, the hook
  runs, and the row is inserted with the defaults of the model and the next id. The
  \<open>tags\<close> value is no attribute of the model and is not stored.
\<close>

definition Post_create ::
  "externals \<Rightarrow> string \<Rightarrow> string \<Rightarrow> string option \<Rightarrow> string option \<Rightarrow> int \<Rightarrow> int \<Rightarrow> store
     \<Rightarrow> (db_error + post) \<times> store" where
  "Post_create X title content excerpt imageUrl authorId now s =
     (if length title < 1 \<or> 255 < length title then (Inl ValidationError, s)
      else if length content < 1 \<or> 50000 < length content then (Inl ValidationError, s)
      else if (case imageUrl of None \<Rightarrow> False | Some u \<Rightarrow> \<not> ext_isUrl X u)
        then (Inl ValidationError, s)
      else (let row = beforeCreate
                        \<lparr>post_id = nextPostId s, post_title = title, post_content = content,
                         post_excerpt = excerpt, post_imageUrl = imageUrl,
                         post_isPublished = True, post_publishedAt = Some now,
                         post_viewCount = 0, post_authorId = authorId,
                         post_createdAt = now, post_updatedAt = now\<rparr>
            in (Inr row, s\<lparr>posts := posts s @ [row], nextPostId := nextPostId s + 1\<rparr>)))"

definition createPost ::
  "externals \<Rightarrow> user_info option \<Rightarrow> string \<Rightarrow> string \<Rightarrow> string option \<Rightarrow> string option
     \<Rightarrow> string list option \<Rightarrow> int \<Rightarrow> store \<Rightarrow> response \<times> store" where
  "createPost X user title content excerpt imageUrl tags now s =
     (case user of
        None \<Rightarrow> (unauthenticated, s)
      | Some u \<Rightarrow>
          (case Post_create X title content excerpt imageUrl (user_id u) now s of
             (Inl e, s') \<Rightarrow> (internal_error, s')
           | (Inr p, s') \<Rightarrow>
               (case Post_findByPk (Num (post_id p)) s' of
                  Inl e \<Rightarrow> (internal_error, s')
                | Inr createdPost \<Rightarrow>
                    (json 201 (PostBody ''Post created successfully'' createdPost), s'))))"

record updatePostRequest =
  u_title :: "string option"
  u_content :: "string option"
  u_excerpt :: "string option"
  u_imageUrl :: "string option"
  u_tags :: "string list option"

text \<open>
  \<open>post.update\<close>: undefined values are dropped, an unchanged row is not written, and
  the changed attributes are validated before the row is written.
\<close>

definition Post_update ::
  "externals \<Rightarrow> post \<Rightarrow> updatePostRequest \<Rightarrow> int \<Rightarrow> store \<Rightarrow> db_error + store" where
  "Post_update X p upd now s =
     (let title = (case u_title upd of None \<Rightarrow> post_title p | Some v \<Rightarrow> v);
          content = (case u_content upd of None \<Rightarrow> post_content p | Some v \<Rightarrow> v);
          excerpt = (case u_excerpt upd of None \<Rightarrow> post_excerpt p | Some v \<Rightarrow> Some v);
          imageUrl = (case u_imageUrl upd of None \<Rightarrow> post_imageUrl p | Some v \<Rightarrow> Some v)
      in if title = post_title p \<and> content = post_content p \<and> excerpt = post_excerpt p
            \<and> imageUrl = post_imageUrl p
         then Inr s
         else if title \<noteq> post_title p \<and> (length title < 1 \<or> 255 < length title)
           then Inl ValidationError
         else if content \<noteq> post_content p \<and> (length content < 1 \<or> 50000 < length content)
           then Inl ValidationError
         else if imageUrl \<noteq> post_imageUrl p
                 \<and> (case imageUrl of None \<Rightarrow> False | Some u \<Rightarrow> \<not> ext_isUrl X u)
           then Inl ValidationError
         else Inr (s\<lparr>posts :=
                map (\<lambda>x. if post_id x = post_id p
                         then x\<lparr>post_title := title, post_content := content,
                                post_excerpt := excerpt, post_imageUrl := imageUrl,
                                post_updatedAt := now\<rparr>
                         else x) (posts s)\<rparr>))"

definition updatePost ::
  "externals \<Rightarrow> user_info option \<Rightarrow> string \<Rightarrow> updatePostRequest \<Rightarrow> int \<Rightarrow> store
     \<Rightarrow> response \<times> store" where
  "updatePost X user ident upd now s =
     (case user of
        None \<Rightarrow> (unauthenticated, s)
      | Some u \<Rightarrow>
          (case Post_findByPk (parseInt ident) s of
             Inl e \<Rightarrow> (internal_error, s)
           | Inr None \<Rightarrow> (json 404 (ErrorBody ''Post not found''), s)
           | Inr (Some p) \<Rightarrow>
               if post_authorId p \<noteq> user_id u
               then (json 403 (ErrorBody ''Not authorized to update this post''), s)
               else (case Post_update X p upd now s of
                       Inl e \<Rightarrow> (internal_error, s)
                     | Inr s' \<Rightarrow>
                         (case Post_findByPk (Num (post_id p)) s' of
                            Inl e \<Rightarrow> (internal_error, s')
                          | Inr updatedPost \<Rightarrow>
                              (json 200 (PostBody ''Post updated successfully'' updatedPost),
                               s')))))"

text \<open>
  \<open>post.destroy()\<close>: the row goes, and with it (\<open>onDelete: 'CASCADE'\<close>) its likes,
  its comments and the comments that reference those.
\<close>

definition Post_destroy :: "post \<Rightarrow> store \<Rightarrow> store" where
  "Post_destroy p s =
     s\<lparr>posts := filter (\<lambda>x. post_id x \<noteq> post_id p) (posts s),
       comments :=
         cascade (map comment_id (filter (\<lambda>c. comment_postId c = post_id p) (comments s)))
           (filter (\<lambda>c. comment_postId c \<noteq> post_id p) (comments s)),
       likes := filter (\<lambda>l. like_postId l \<noteq> post_id p) (likes s)\<rparr>"

definition deletePost :: "user_info option \<Rightarrow> string \<Rightarrow> store \<Rightarrow> response \<times> store" where
  "deletePost user ident s =
     (case user of
        None \<Rightarrow> (unauthenticated, s)
      | Some u \<Rightarrow>
          (case Post_findByPk (parseInt ident) s of
             Inl e \<Rightarrow> (internal_error, s)
           | Inr None \<Rightarrow> (json 404 (ErrorBody ''Post not found''), s)
           | Inr (Some p) \<Rightarrow>
               if post_authorId p \<noteq> user_id u
               then (json 403 (ErrorBody ''Not authorized to delete this post''), s)
               else (json 200 (MessageBody ''Post deleted successfully''), Post_destroy p s)))"

section \<open>A small blog, for concrete runs\<close>

definition alice :: user_info where
  "alice = \<lparr>user_id = 1, user_email = ''alice@example.com'', user_username = ''alice''\<rparr>"

definition bob :: user_info where
  "bob = \<lparr>user_id = 2, user_email = ''bob@example.com'', user_username = ''bob''\<rparr>"

definition post1 :: post where
  "post1 = \<lparr>post_id = 1, post_title = ''Hello'', post_content = ''First post'',
            post_excerpt = Some ''First post...'', post_imageUrl = None,
            post_isPublished = True, post_publishedAt = Some 100, post_viewCount = 5,
            post_authorId = 1, post_createdAt = 100, post_updatedAt = 100\<rparr>"

definition post2 :: post where
  "post2 = \<lparr>post_id = 2, post_title = ''Draft'', post_content = ''Not yet'',
            post_excerpt = None, post_imageUrl = None,
            post_isPublished = False, post_publishedAt = None, post_viewCount = 0,
            post_authorId = 2, post_createdAt = 105, post_updatedAt = 105\<rparr>"

definition post3 :: post where
  "post3 = \<lparr>post_id = 3, post_title = ''Again'', post_content = ''Second post'',
            post_excerpt = Some ''Second post...'', post_imageUrl = None,
            post_isPublished = True, post_publishedAt = Some 107, post_viewCount = 0,
            post_authorId = 2, post_createdAt = 107, post_updatedAt = 107\<rparr>"

definition comment1 :: comment where
  "comment1 = \<lparr>comment_id = 1, comment_content = ''Nice'', comment_postId = 1,
               comment_authorId = 2, comment_parentId = None, comment_isApproved = True,
               comment_createdAt = 110, comment_updatedAt = 110\<rparr>"

definition comment2 :: comment where
  "comment2 = \<lparr>comment_id = 2, comment_content = ''Thanks'', comment_postId = 1,
               comment_authorId = 1, comment_parentId = None, comment_isApproved = True,
               comment_createdAt = 120, comment_updatedAt = 120\<rparr>"

definition comment3 :: comment where
  "comment3 = \<lparr>comment_id = 3, comment_content = ''Indeed'', comment_postId = 1,
               comment_authorId = 1, comment_parentId = Some 1, comment_isApproved = False,
               comment_createdAt = 130, comment_updatedAt = 130\<rparr>"

definition comment4 :: comment where
  "comment4 = \<lparr>comment_id = 4, comment_content = ''Elsewhere'', comment_postId = 3,
               comment_authorId = 1, comment_parentId = None, comment_isApproved = True,
               comment_createdAt = 140, comment_updatedAt = 140\<rparr>"

definition like1 :: like where
  "like1 = \<lparr>like_id = 1, like_userId = 2, like_postId = 1,
            like_createdAt = 115, like_updatedAt = 115\<rparr>"

definition blog :: store where
  "blog = \<lparr>posts = [post1, post2, post3],
           comments = [comment1, comment2, comment3, comment4],
           likes = [like1],
           nextPostId = 4, nextCommentId = 5, nextLikeId = 2\<rparr>"

text \<open>
  One choice of the external operations: a pattern \<open>%x%\<close> matches the values that
  contain \<open>x\<close>, text is ordered by code unit, and every URL is accepted.
\<close>

definition contains :: "string \<Rightarrow> string \<Rightarrow> bool" where
  "contains x v = (\<exists>k \<in> set [0 ..< Suc (length v)]. take (length x) (drop k v) = x)"

fun code_unit_le :: "string \<Rightarrow> string \<Rightarrow> bool" where
  "code_unit_le [] b = True"
| "code_unit_le (x # a) [] = False"
| "code_unit_le (x # a) (y # b) =
     ((of_char x :: nat) < of_char y \<or> (x = y \<and> code_unit_le a b))"

definition plain :: externals where
  "plain = \<lparr>ext_iLike = (\<lambda>pat v. contains (butlast (tl pat)) v),
            ext_collate = code_unit_le,
            ext_isUrl = (\<lambda>u. True)\<rparr>"

text \<open>The query of a request with no query string.\<close>

definition no_query :: postQuery where
  "no_query = \<lparr>q_page = None, q_limit = None, q_sortBy = None, q_sortOrder = None,
               q_search = None, q_tags = None, q_authorId = None\<rparr>"

section \<open>Notions the properties are stated with\<close>

text \<open>The Like rows of one user for one post.\<close>

definition like_rows :: "int \<Rightarrow> int \<Rightarrow> store \<Rightarrow> like list" where
  "like_rows uid pid s =
     filter (\<lambda>l. like_userId l = uid \<and> like_postId l = pid) (likes s)"

text \<open>
  A run of toggles by one user on one post, one per time stamp: the responses in order,
  and the store at the end.
\<close>

fun toggles :: "user_info option \<Rightarrow> string \<Rightarrow> int list \<Rightarrow> store \<Rightarrow> response list \<times> store" where
  "toggles user ident [] s = ([], s)"
| "toggles user ident (t # ts) s =
     (case likePost user ident t s of
        (r, s') \<Rightarrow> (case toggles user ident ts s' of (rs, s'') \<Rightarrow> (r # rs, s'')))"

text \<open>
  The comment-parent invariant: every stored comment with a \<open>parentId\<close> references a
  stored comment of the same post.
\<close>

definition parents_in_same_post :: "store \<Rightarrow> bool" where
  "parents_in_same_post s =
     (\<forall>c \<in> set (comments s).
        case comment_parentId c of
          None \<Rightarrow> True
        | Some q \<Rightarrow> \<exists>d \<in> set (comments s). comment_id d = q \<and> comment_postId d = comment_postId c)"

text \<open>What \<open>autoIncrement\<close> gives: the comment ids are positive and below the next one.\<close>

definition comment_ids_drawn :: "store \<Rightarrow> bool" where
  "comment_ids_drawn s =
     (0 < nextCommentId s
      \<and> (\<forall>c \<in> set (comments s). 0 < comment_id c \<and> comment_id c < nextCommentId s))"

text \<open>
  Reading without the moderation flag: a comment, a store and a response with every
  \<open>isApproved\<close> set to one value. Two stores that differ only in the \<open>isApproved\<close>
  values of their comments are the stores that agree once the flag is hidden.
\<close>

definition hide_approval :: "comment \<Rightarrow> comment" where
  "hide_approval c = c\<lparr>comment_isApproved := True\<rparr>"

definition store_hide_approval :: "store \<Rightarrow> store" where
  "store_hide_approval s = s\<lparr>comments := map hide_approval (comments s)\<rparr>"

definition differ_in_approval_only :: "store \<Rightarrow> store \<Rightarrow> bool" where
  "differ_in_approval_only s t = (store_hide_approval s = store_hide_approval t)"

definition tree_hide_approval :: "comment_tree \<Rightarrow> comment_tree" where
  "tree_hide_approval r =
     \<lparr>ct_comment = hide_approval (ct_comment r),
      ct_replies = map hide_approval (ct_replies r)\<rparr>"

fun body_hide_approval :: "body \<Rightarrow> body" where
  "body_hide_approval (CommentBody m c) = CommentBody m (map_option hide_approval c)"
| "body_hide_approval (PostDetailBody p cs n l) =
     PostDetailBody p (map hide_approval cs) n l"
| "body_hide_approval (CommentsBody rows pg) =
     CommentsBody (map tree_hide_approval rows) pg"
| "body_hide_approval b = b"

definition response_hide_approval :: "response \<Rightarrow> response" where
  "response_hide_approval r = r\<lparr>body := body_hide_approval (body r)\<rparr>"

text \<open>The top-level comments a response of \<open>getComments\<close> lists, in its order.\<close>

definition top_level_rows :: "response \<Rightarrow> comment list" where
  "top_level_rows r =
     (case body r of CommentsBody rows pg \<Rightarrow> map ct_comment rows | _ \<Rightarrow> [])"

text \<open>The replies a response of \<open>getComments\<close> lists, one list per top-level comment.\<close>

definition reply_rows :: "response \<Rightarrow> comment list list" where
  "reply_rows r =
     (case body r of CommentsBody rows pg \<Rightarrow> map ct_replies rows | _ \<Rightarrow> [])"

text \<open>The posts a response of \<open>getPosts\<close> lists.\<close>

definition listed_posts :: "response \<Rightarrow> post_summary list" where
  "listed_posts r = (case body r of PostsBody rows pg \<Rightarrow> rows | _ \<Rightarrow> [])"

text \<open>The names \<open>getPosts\<close> gives to the parsed query parameters.\<close>

definition pageNumber_of :: "postQuery \<Rightarrow> jsnum" where
  "pageNumber_of q = parseInt (case q_page q of None \<Rightarrow> ''1'' | Some p \<Rightarrow> p)"

definition limitNumber_of :: "postQuery \<Rightarrow> jsnum" where
  "limitNumber_of q = parseInt (case q_limit q of None \<Rightarrow> ''10'' | Some l \<Rightarrow> l)"

definition sortBy_of :: "postQuery \<Rightarrow> string" where
  "sortBy_of q = (case q_sortBy q of None \<Rightarrow> ''createdAt'' | Some c \<Rightarrow> c)"

text \<open>
  \<open>Number.isSafeInteger\<close>: the integers a JavaScript number holds exactly, so that the
  arithmetic of the controllers on them is the arithmetic of integers.
\<close>

definition safe_integer :: "int \<Rightarrow> bool" where
  "safe_integer n = (- 9007199254740991 \<le> n \<and> n \<le> 9007199254740991)"

section \<open>Auxiliary facts\<close>

lemma parseInt_1: "parseInt ''1'' = Num 1"
  by (simp add: parseInt_def StrWhiteSpaceChar_def digit_of_def)

lemma parseInt_2: "parseInt ''2'' = Num 2"
  by (simp add: parseInt_def StrWhiteSpaceChar_def digit_of_def)

lemma parseInt_abc: "parseInt ''abc'' = NaN"
  by (simp add: parseInt_def StrWhiteSpaceChar_def digit_of_def)

lemma find_post1: "find (\<lambda>x. post_id x = 1) (posts blog) = Some post1"
  by (simp add: blog_def post1_def)

lemma find_comment2: "find (\<lambda>x. comment_id x = 2) (comments blog) = Some comment2"
  by (simp add: blog_def comment1_def comment2_def)




lemma find_comment1: "find (\<lambda>x. comment_id x = 1) (comments blog) = Some comment1"
  by (simp add: blog_def comment1_def)

lemma find_post3: "find (\<lambda>x. post_id x = 3) (posts blog) = Some post3"
  by (simp add: blog_def post1_def post2_def post3_def)

lemma blog_invariants: "comment_ids_drawn blog \<and> parents_in_same_post blog"
  by (simp add: comment_ids_drawn_def parents_in_same_post_def blog_def comment1_def
      comment2_def comment3_def comment4_def)

section \<open>Store calls of the post listing\<close>

lemma post_with_counts_calls:
  "snd (post_with_counts user s p) = (case user of None \<Rightarrow> 2 | Some u \<Rightarrow> 3)"
  by (simp add: post_with_counts_def Let_def)

lemma sum_list_const: "sum_list (map (\<lambda>x. c) xs) = c * length xs" for c :: nat
  by (induction xs) auto

lemma getPosts_rejected:
  assumes "Post_findAndCountAll X (build_where q) (limitNumber_of q)
             (js_mul (js_sub (pageNumber_of q) (Num 1)) (limitNumber_of q))
             (sortBy_of q) (case q_sortOrder q of None \<Rightarrow> DESC | Some d \<Rightarrow> d) s = Inl e"
  shows "getPosts X user q s = (internal_error, 1)"
  using assms
  by (simp add: getPosts_def Let_def pageNumber_of_def limitNumber_of_def sortBy_of_def)

lemma getPosts_listed:
  assumes "Post_findAndCountAll X (build_where q) (limitNumber_of q)
             (js_mul (js_sub (pageNumber_of q) (Num 1)) (limitNumber_of q))
             (sortBy_of q) (case q_sortOrder q of None \<Rightarrow> DESC | Some d \<Rightarrow> d) s = Inr rows"
  shows "getPosts X user q s
           = (json 200 (PostsBody (map (\<lambda>p. fst (post_with_counts user s p)) rows)
                \<lparr>currentPage = pageNumber_of q,
                 hasPrevPage = js_gt (pageNumber_of q) (Num 1)\<rparr>),
              1 + (case user of None \<Rightarrow> 2 | Some u \<Rightarrow> 3) * length rows)"
  using assms
  by (simp add: getPosts_def Let_def pageNumber_of_def limitNumber_of_def sortBy_of_def
      comp_def post_with_counts_calls sum_list_const)

lemma getPosts_calls:
  "snd (getPosts X user q s)
     = 1 + (case user of None \<Rightarrow> 2 | Some u \<Rightarrow> 3) * length (listed_posts (fst (getPosts X user q s)))"
proof (cases "Post_findAndCountAll X (build_where q) (limitNumber_of q)
             (js_mul (js_sub (pageNumber_of q) (Num 1)) (limitNumber_of q))
             (sortBy_of q) (case q_sortOrder q of None \<Rightarrow> DESC | Some d \<Rightarrow> d) s")
  case (Inl e)
  from getPosts_rejected [OF Inl] show ?thesis
    by (simp add: listed_posts_def internal_error_def json_def)
next
  case (Inr rows)
  from getPosts_listed [OF Inr] show ?thesis
    by (simp add: listed_posts_def json_def)
qed

lemma parseInt_10: "parseInt ''10'' = Num 10"
  by (simp add: parseInt_def StrWhiteSpaceChar_def digit_of_def)

lemma no_query_parsed:
  "pageNumber_of no_query = Num 1" "limitNumber_of no_query = Num 10"
  "sortBy_of no_query = ''createdAt''" "q_sortOrder no_query = None"
  "build_where no_query
     = \<lparr>w_isPublished = True, w_search = None, w_tags = None, w_authorId = None\<rparr>"
  by (simp_all add: pageNumber_of_def limitNumber_of_def sortBy_of_def no_query_def
      parseInt_1 parseInt_10 build_where_def)

lemma first_page_newest:
  "Post_findAndCountAll X
     \<lparr>w_isPublished = True, w_search = None, w_tags = None, w_authorId = None\<rparr>
     (Num 10) (js_mul (js_sub (Num 1) (Num 1)) (Num 10)) ''createdAt'' DESC s
   = Inr (take 10 (order_by (\<lambda>a b. post_createdAt b \<le> post_createdAt a)
            (filter post_isPublished (posts s))))"
proof -
  have c: "post_column ''createdAt'' = Some (\<lambda>p. SqlInt (post_createdAt p))"
    by (simp add: post_column_def)
  have w: "where_matches X \<lparr>w_isPublished = True, w_search = None, w_tags = None,
             w_authorId = None\<rparr> = post_isPublished"
    by (rule ext) (simp add: where_matches_def)
  show ?thesis
    by (simp add: Post_findAndCountAll_def c w limit_offset_def js_mul_def js_sub_def)
qed

lemma blog_first_page:
  "Post_findAndCountAll plain (build_where no_query) (limitNumber_of no_query)
     (js_mul (js_sub (pageNumber_of no_query) (Num 1)) (limitNumber_of no_query))
     (sortBy_of no_query) (case q_sortOrder no_query of None \<Rightarrow> DESC | Some d \<Rightarrow> d) blog
   = Inr [post3, post1]"
  by (simp add: no_query_parsed first_page_newest)
     (simp add: blog_def order_by_def post1_def post2_def post3_def)

lemma blog_one_post_first_page:
  "Post_findAndCountAll plain (build_where no_query) (limitNumber_of no_query)
     (js_mul (js_sub (pageNumber_of no_query) (Num 1)) (limitNumber_of no_query))
     (sortBy_of no_query) (case q_sortOrder no_query of None \<Rightarrow> DESC | Some d \<Rightarrow> d)
     (blog\<lparr>posts := [post1]\<rparr>)
   = Inr [post1]"
  by (simp add: no_query_parsed first_page_newest)
     (simp add: order_by_def post1_def)

text \<open>
  Claim C1 asks for a number of store calls of \<open>getPosts\<close> that does not depend on the
  number of posts on the page. The controller awaits one call for the listing and then,
  for every post of the page, two calls (three for a signed-in viewer): the number of
  calls is \<open>1 + 3 * K\<close> for a page of \<open>K\<close> posts. For the same request by alice,
  the blog with one published post takes 4 calls and the blog with two takes 7.
\<close>

theorem getPosts_calls_grow_with_page:
  "snd (getPosts X user q s)
     = 1 + (case user of None \<Rightarrow> 2 | Some u \<Rightarrow> 3)
           * length (listed_posts (fst (getPosts X user q s)))
   \<and> length (listed_posts (fst (getPosts plain (Some alice) no_query (blog\<lparr>posts := [post1]\<rparr>)))) = 1
   \<and> snd (getPosts plain (Some alice) no_query (blog\<lparr>posts := [post1]\<rparr>)) = 4
   \<and> length (listed_posts (fst (getPosts plain (Some alice) no_query blog))) = 2
   \<and> snd (getPosts plain (Some alice) no_query blog) = 7"
proof -
  have one: "getPosts plain (Some alice) no_query (blog\<lparr>posts := [post1]\<rparr>)
               = (json 200 (PostsBody
                    (map (\<lambda>p. fst (post_with_counts (Some alice) (blog\<lparr>posts := [post1]\<rparr>) p))
                       [post1])
                    \<lparr>currentPage = Num 1, hasPrevPage = js_gt (Num 1) (Num 1)\<rparr>), 4)"
    using getPosts_listed [OF blog_one_post_first_page, of "Some alice"]
    by (simp add: no_query_parsed)
  have two: "getPosts plain (Some alice) no_query blog
               = (json 200 (PostsBody
                    (map (\<lambda>p. fst (post_with_counts (Some alice) blog p)) [post3, post1])
                    \<lparr>currentPage = Num 1, hasPrevPage = js_gt (Num 1) (Num 1)\<rparr>), 7)"
    using getPosts_listed [OF blog_first_page, of "Some alice"]
    by (simp add: no_query_parsed)
  show ?thesis
    by (simp add: getPosts_calls one two listed_posts_def json_def)
qed

section \<open>The like toggle, call after call\<close>

lemma like_rows_destroy:
  "like_rows uid pid (Like_destroy l s) = filter (\<lambda>x. like_id x \<noteq> like_id l) (like_rows uid pid s)"
  by (auto simp: like_rows_def Like_destroy_def intro: filter_cong)

lemma find_like_rows:
  "Like_findOne pid uid s = (case like_rows uid pid s of [] \<Rightarrow> None | l # _ \<Rightarrow> Some l)"
proof -
  have "find P xs = (case filter P xs of [] \<Rightarrow> None | l # _ \<Rightarrow> Some l)" for P and xs :: "like list"
    by (induction xs) auto
  then show ?thesis
    by (simp add: Like_findOne_def like_rows_def conj_commute)
qed

text \<open>One toggle, from a store where the post exists.\<close>

lemma likePost_existing:
  assumes "parseInt ident = Num n" and "find (\<lambda>x. post_id x = n) (posts s) = Some p"
    and "like_rows (user_id u) n s = [l]"
  shows "likePost (Some u) ident now s
           = (json 200 (LikedBody ''Post unliked'' False), Like_destroy l s)
       \<and> like_rows (user_id u) n (Like_destroy l s) = []"
proof (intro conjI)
  have pid: "post_id p = n"
    using assms(2) by (auto simp: find_Some_iff)
  show "likePost (Some u) ident now s
           = (json 200 (LikedBody ''Post unliked'' False), Like_destroy l s)"
    using assms pid
    by (simp add: likePost_def likePost_read_def likePost_write_def Post_findByPk_def
        find_like_rows)
  show "like_rows (user_id u) n (Like_destroy l s) = []"
    using assms(3) by (simp add: like_rows_destroy)
qed

lemma likePost_absent:
  assumes "parseInt ident = Num n" and "find (\<lambda>x. post_id x = n) (posts s) = Some p"
    and "like_rows (user_id u) n s = []"
  shows "\<exists>l s'. likePost (Some u) ident now s
           = (json 200 (LikedBody ''Post liked'' True), s')
          \<and> like_rows (user_id u) n s' = [l] \<and> posts s' = posts s
          \<and> likes s' = likes s @ [l] \<and> like_userId l = user_id u \<and> like_postId l = n"
proof -
  have pid: "post_id p = n"
    using assms(2) by (auto simp: find_Some_iff)
  have no: "\<not> (\<exists>l \<in> set (likes s). like_userId l = user_id u \<and> like_postId l = n)"
    using assms(3) by (auto simp: like_rows_def filter_empty_conv)
  show ?thesis
    using assms pid no
    by (simp add: likePost_def likePost_read_def likePost_write_def Post_findByPk_def
        find_like_rows Like_create_def Let_def like_rows_def)
qed

lemma likePost_step:
  assumes "parseInt ident = Num n" and "find (\<lambda>x. post_id x = n) (posts s) = Some p"
    and "length (like_rows (user_id u) n s) \<le> 1"
  shows "posts (snd (likePost (Some u) ident now s)) = posts s
       \<and> length (like_rows (user_id u) n (snd (likePost (Some u) ident now s)))
           = (if like_rows (user_id u) n s = [] then 1 else 0)"
proof (cases "like_rows (user_id u) n s")
  case Nil
  from likePost_absent [OF assms(1,2) Nil, of now] show ?thesis
    using Nil by auto
next
  case (Cons l ls)
  with assms(3) have one: "like_rows (user_id u) n s = [l]"
    by simp
  from likePost_existing [OF assms(1,2) one, of now] show ?thesis
    using one by (simp add: Like_destroy_def)
qed

lemma toggles_parity:
  assumes "parseInt ident = Num n"
  shows "find (\<lambda>x. post_id x = n) (posts s) = Some p
     \<Longrightarrow> length (like_rows (user_id u) n s) \<le> 1
     \<Longrightarrow> length (like_rows (user_id u) n (snd (toggles (Some u) ident ts s)))
           = (length (like_rows (user_id u) n s) + length ts) mod 2"
proof (induction ts arbitrary: s)
  case Nil
  then show ?case
    by (cases "like_rows (user_id u) n s") auto
next
  case (Cons t ts)
  let ?s1 = "snd (likePost (Some u) ident t s)"
  from likePost_step [OF assms Cons.prems, of t]
  have ps: "posts ?s1 = posts s"
    and len: "length (like_rows (user_id u) n ?s1)
                = (if like_rows (user_id u) n s = [] then 1 else 0)"
    by simp_all
  have "length (like_rows (user_id u) n (snd (toggles (Some u) ident ts ?s1)))
          = (length (like_rows (user_id u) n ?s1) + length ts) mod 2"
    using Cons.prems ps len by (intro Cons.IH) auto
  moreover have "snd (toggles (Some u) ident (t # ts) s) = snd (toggles (Some u) ident ts ?s1)"
    by (simp split: prod.splits)
  moreover have "(length (like_rows (user_id u) n ?s1) + length ts) mod 2
                   = (length (like_rows (user_id u) n s) + length (t # ts)) mod 2"
  proof (cases "like_rows (user_id u) n s")
    case Nil
    with len show ?thesis by simp
  next
    case (Cons l ls)
    with Cons.prems(2) have "length (like_rows (user_id u) n s) = 1" by simp
    with len Cons show ?thesis by simp
  qed
  ultimately show ?case by simp
qed

text \<open>
  Claim C2. For a user and an existing post, where the unique index on
  \<open>(userId, postId)\<close> holds for the pair: when a Like row of the pair exists,
  \<open>likePost\<close> deletes it and reports \<open>liked = false\<close>; when none exists, it creates
  one and reports \<open>liked = true\<close>. Hence, from a store with no row for the pair, two
  calls in sequence report \<open>true\<close> then \<open>false\<close> and leave no row, an odd number of
  calls leaves exactly one row, and an even number leaves none.
\<close>

theorem toggleLike_flips:
  assumes "parseInt ident = Num n"
    and "find (\<lambda>x. post_id x = n) (posts s) = Some p"
    and "length (like_rows (user_id u) n s) \<le> 1"
  shows "(like_rows (user_id u) n s \<noteq> []
            \<longrightarrow> (\<exists>s'. likePost (Some u) ident now s
                         = (json 200 (LikedBody ''Post unliked'' False), s')
                       \<and> like_rows (user_id u) n s' = []))
       \<and> (like_rows (user_id u) n s = []
            \<longrightarrow> (\<exists>s' l. likePost (Some u) ident now s
                         = (json 200 (LikedBody ''Post liked'' True), s')
                       \<and> like_rows (user_id u) n s' = [l])
              \<and> (\<exists>s'. toggles (Some u) ident [t1, t2] s
                         = ([json 200 (LikedBody ''Post liked'' True),
                             json 200 (LikedBody ''Post unliked'' False)], s')
                       \<and> like_rows (user_id u) n s' = [])
              \<and> (odd (length ts)
                    \<longrightarrow> length (like_rows (user_id u) n (snd (toggles (Some u) ident ts s))) = 1)
              \<and> (even (length ts)
                    \<longrightarrow> like_rows (user_id u) n (snd (toggles (Some u) ident ts s)) = []))"
proof (intro conjI impI)
  assume ne: "like_rows (user_id u) n s \<noteq> []"
  then obtain l where one: "like_rows (user_id u) n s = [l]"
    using assms(3) by (cases "like_rows (user_id u) n s") auto
  from likePost_existing [OF assms(1,2) one, of now]
  show "\<exists>s'. likePost (Some u) ident now s
                = (json 200 (LikedBody ''Post unliked'' False), s')
              \<and> like_rows (user_id u) n s' = []"
    by blast
next
  assume e: "like_rows (user_id u) n s = []"
  from likePost_absent [OF assms(1,2) e, of now]
  show "\<exists>s' l. likePost (Some u) ident now s
                  = (json 200 (LikedBody ''Post liked'' True), s')
                \<and> like_rows (user_id u) n s' = [l]"
    by blast
next
  assume e: "like_rows (user_id u) n s = []"
  from likePost_absent [OF assms(1,2) e, of t1]
  obtain l s1 where first: "likePost (Some u) ident t1 s
                              = (json 200 (LikedBody ''Post liked'' True), s1)"
    and one: "like_rows (user_id u) n s1 = [l]" and ps: "posts s1 = posts s"
    by blast
  from ps assms(2) have f1: "find (\<lambda>x. post_id x = n) (posts s1) = Some p"
    by simp
  from likePost_existing [OF assms(1) f1 one, of t2]
  have second: "likePost (Some u) ident t2 s1
                  = (json 200 (LikedBody ''Post unliked'' False), Like_destroy l s1)"
    and none: "like_rows (user_id u) n (Like_destroy l s1) = []"
    by blast+
  show "\<exists>s'. toggles (Some u) ident [t1, t2] s
                = ([json 200 (LikedBody ''Post liked'' True),
                    json 200 (LikedBody ''Post unliked'' False)], s')
              \<and> like_rows (user_id u) n s' = []"
    using first second none by simp
next
  assume e: "like_rows (user_id u) n s = []" and o: "odd (length ts)"
  from toggles_parity [OF assms, of ts] e o
  show "length (like_rows (user_id u) n (snd (toggles (Some u) ident ts s))) = 1"
    by (simp add: odd_iff_mod_2_eq_one)
next
  assume e: "like_rows (user_id u) n s = []" and o: "even (length ts)"
  from toggles_parity [OF assms, of ts] e o
  show "like_rows (user_id u) n (snd (toggles (Some u) ident ts s)) = []"
    by simp
qed

theorem toggleLike_flips_witness:
  "likePost (Some bob) ''1'' 200 blog
     = (json 200 (LikedBody ''Post unliked'' False), blog\<lparr>likes := []\<rparr>)
   \<and> like_rows (user_id alice) 1 blog = []
   \<and> (\<exists>s'. toggles (Some alice) ''1'' [200, 300] blog
              = ([json 200 (LikedBody ''Post liked'' True),
                  json 200 (LikedBody ''Post unliked'' False)], s')
            \<and> like_rows (user_id alice) 1 s' = [])
   \<and> length (like_rows (user_id alice) 1
        (snd (toggles (Some alice) ''1'' [200, 300, 400] blog))) = 1"
proof -
  have e: "like_rows (user_id alice) 1 blog = []"
    by (simp add: like_rows_def blog_def like1_def alice_def)
  have u: "length (like_rows (user_id alice) 1 blog) \<le> 1"
    using e by simp
  have b: "likePost (Some bob) ''1'' 200 blog
     = (json 200 (LikedBody ''Post unliked'' False), blog\<lparr>likes := []\<rparr>)"
    by (simp add: likePost_def likePost_read_def likePost_write_def Post_findByPk_def
        parseInt_1 find_post1 Like_findOne_def Like_destroy_def blog_def like1_def
        bob_def post1_def)
  show ?thesis
    using toggleLike_flips [OF parseInt_1 find_post1 u, of 200 200 300 "[200, 300, 400]"] e b
    by simp
qed

section \<open>Ownership\<close>

text \<open>
  Claim C3. For an existing post, and for an existing comment, an authenticated actor
  whose id differs from the row's \<open>authorId\<close> gets 403 (Forbidden) from
  \<open>updatePost\<close>, \<open>deletePost\<close>, \<open>updateComment\<close> and \<open>deleteComment\<close>, and the
  store after the call is the store before it.
\<close>

theorem non_author_is_forbidden:
  "(parseInt pident = Num n \<and> find (\<lambda>x. post_id x = n) (posts s) = Some p
      \<and> post_authorId p \<noteq> user_id u
    \<longrightarrow> updatePost X (Some u) pident upd now s
          = (json 403 (ErrorBody ''Not authorized to update this post''), s)
        \<and> deletePost (Some u) pident s
          = (json 403 (ErrorBody ''Not authorized to delete this post''), s))
   \<and> (parseInt cident = Num m \<and> find (\<lambda>x. comment_id x = m) (comments s) = Some c
      \<and> comment_authorId c \<noteq> user_id u
    \<longrightarrow> updateComment (Some u) cident content now s
          = (json 403 (ErrorBody ''Not authorized to update this comment''), s)
        \<and> deleteComment (Some u) cident s
          = (json 403 (ErrorBody ''Not authorized to delete this comment''), s))"
  by (simp add: updatePost_def deletePost_def updateComment_def deleteComment_def
      Post_findByPk_def Comment_findByPk_def)

theorem non_author_is_forbidden_witness:
  "updatePost plain (Some bob) ''1''
       \<lparr>u_title = Some ''Mine'', u_content = None, u_excerpt = None,
        u_imageUrl = None, u_tags = None\<rparr> 500 blog
     = (json 403 (ErrorBody ''Not authorized to update this post''), blog)
   \<and> deletePost (Some bob) ''1'' blog
     = (json 403 (ErrorBody ''Not authorized to delete this post''), blog)
   \<and> updateComment (Some bob) ''2'' (Some ''edited'') 500 blog
     = (json 403 (ErrorBody ''Not authorized to update this comment''), blog)
   \<and> deleteComment (Some bob) ''2'' blog
     = (json 403 (ErrorBody ''Not authorized to delete this comment''), blog)"
proof -
  have ap: "post_authorId post1 \<noteq> user_id bob"
    by (simp add: post1_def bob_def)
  have ac: "comment_authorId comment2 \<noteq> user_id bob"
    by (simp add: comment2_def bob_def)
  show ?thesis
    using non_author_is_forbidden
        [of "''1''" 1 blog post1 bob plain _ 500 "''2''" 2 comment2 "Some ''edited''"]
      parseInt_1 parseInt_2 find_post1 find_comment2 ap ac
    by simp
qed

section \<open>Creating a comment\<close>

lemma check_parent_None:
  assumes "q \<noteq> 0" and "check_parent postId (Some q) s = None"
  shows "\<exists>par. find (\<lambda>x. comment_id x = q) (comments s) = Some par \<and> comment_postId par = postId"
  using assms
  by (auto simp: check_parent_def Comment_findByPk_def split: option.splits if_splits)

lemma check_parent_Some:
  assumes "check_parent postId parentId s = Some r"
  shows "status r \<noteq> 201"
  using assms
  by (auto simp: check_parent_def Comment_findByPk_def json_def internal_error_def
      split: option.splits if_splits)

lemma createComment_status_201:
  assumes "status (fst (createComment user content postId parentId now s)) = 201"
  shows "check_parent postId parentId s = None
       \<and> (\<exists>c. comments (snd (createComment user content postId parentId now s))
                = comments s @ [c]
              \<and> comment_id c = nextCommentId s \<and> comment_postId c = postId
              \<and> comment_parentId c = parentId \<and> comment_isApproved c
              \<and> (\<forall>q. parentId = Some q
                    \<longrightarrow> find (\<lambda>x. comment_id x = q) (comments s) \<noteq> None))
       \<and> nextCommentId (snd (createComment user content postId parentId now s))
            = nextCommentId s + 1"
  using assms
  by (auto simp: createComment_def Post_findByPk_def Comment_create_def Comment_findByPk_def
      Let_def json_def internal_error_def unauthenticated_def
      split: option.splits sum.splits if_splits prod.splits dest: check_parent_Some)

lemma createComment_other_status:
  assumes "status (fst (createComment user content postId parentId now s)) \<noteq> 201"
  shows "comments (snd (createComment user content postId parentId now s)) = comments s
       \<and> (nextCommentId (snd (createComment user content postId parentId now s)) = nextCommentId s
          \<or> nextCommentId (snd (createComment user content postId parentId now s))
               = nextCommentId s + 1)"
  using assms
  by (auto simp: createComment_def Post_findByPk_def Comment_create_def Comment_findByPk_def
      Let_def json_def
      split: option.splits sum.splits if_splits prod.splits)

lemma createComment_keeps_invariant:
  assumes ids: "comment_ids_drawn s" and inv: "parents_in_same_post s"
  shows "comment_ids_drawn (snd (createComment user content postId parentId now s))
       \<and> parents_in_same_post (snd (createComment user content postId parentId now s))"
proof (cases "status (fst (createComment user content postId parentId now s)) = 201")
  case False
  let ?s' = "snd (createComment user content postId parentId now s)"
  from createComment_other_status [OF False]
  have cs: "comments ?s' = comments s"
    and nx: "nextCommentId ?s' = nextCommentId s \<or> nextCommentId ?s' = nextCommentId s + 1"
    by simp_all
  have "parents_in_same_post ?s'"
    using inv unfolding parents_in_same_post_def cs .
  moreover have "comment_ids_drawn ?s'"
    using ids nx unfolding comment_ids_drawn_def cs by auto
  ultimately show ?thesis by simp
next
  case True
  let ?s' = "snd (createComment user content postId parentId now s)"
  from createComment_status_201 [OF True] obtain c where
    chk: "check_parent postId parentId s = None"
    and cs: "comments ?s' = comments s @ [c]"
    and c: "comment_id c = nextCommentId s" "comment_postId c = postId"
      "comment_parentId c = parentId"
    and fk: "\<forall>q. parentId = Some q \<longrightarrow> find (\<lambda>x. comment_id x = q) (comments s) \<noteq> None"
    and nx: "nextCommentId ?s' = nextCommentId s + 1"
    by blast
  have new: "case comment_parentId c of
               None \<Rightarrow> True
             | Some q \<Rightarrow> \<exists>d \<in> set (comments s). comment_id d = q \<and> comment_postId d = comment_postId c"
  proof (cases parentId)
    case None
    with c show ?thesis by simp
  next
    case (Some q)
    have "q \<noteq> 0"
    proof
      assume "q = 0"
      with fk Some obtain d where "find (\<lambda>x. comment_id x = 0) (comments s) = Some d"
        by auto
      then have "d \<in> set (comments s)" and "comment_id d = 0"
        by (auto simp: find_Some_iff)
      with ids show False
        by (auto simp: comment_ids_drawn_def)
    qed
    from check_parent_None [OF this] chk Some obtain par where
      "find (\<lambda>x. comment_id x = q) (comments s) = Some par" and "comment_postId par = postId"
      by blast
    then have "par \<in> set (comments s)" and "comment_id par = q" and "comment_postId par = postId"
      by (auto simp: find_Some_iff)
    with c Some show ?thesis by auto
  qed
  have old: "case comment_parentId x of
               None \<Rightarrow> True
             | Some q \<Rightarrow> \<exists>d \<in> set (comments s). comment_id d = q \<and> comment_postId d = comment_postId x"
    if "x \<in> set (comments s)" for x
    using inv that by (simp add: parents_in_same_post_def)
  have mono: "case comment_parentId x of
                None \<Rightarrow> True
              | Some q \<Rightarrow> \<exists>d \<in> set (comments s @ [c]).
                           comment_id d = q \<and> comment_postId d = comment_postId x"
    if "case comment_parentId x of
          None \<Rightarrow> True
        | Some q \<Rightarrow> \<exists>d \<in> set (comments s). comment_id d = q \<and> comment_postId d = comment_postId x"
    for x
    using that by (cases "comment_parentId x") auto
  have "parents_in_same_post ?s'"
    unfolding parents_in_same_post_def cs
  proof (intro ballI)
    fix x
    assume "x \<in> set (comments s @ [c])"
    then have "x \<in> set (comments s) \<or> x = c"
      by auto
    then show "case comment_parentId x of
                 None \<Rightarrow> True
               | Some q \<Rightarrow> \<exists>d \<in> set (comments s @ [c]).
                            comment_id d = q \<and> comment_postId d = comment_postId x"
      using mono old new by blast
  qed
  moreover have "comment_ids_drawn ?s'"
    unfolding comment_ids_drawn_def cs nx
    using ids c by (auto simp: comment_ids_drawn_def)
  ultimately show ?thesis by simp
qed

lemma createComment_with_parent:
  assumes "find (\<lambda>x. post_id x = postId) (posts s) = Some p"
    and "find (\<lambda>x. comment_id x = q) (comments s) = Some par"
    and "comment_postId par = postId"
    and "1 \<le> length content" and "length content \<le> 5000"
  shows "status (fst (createComment (Some u) content postId (Some q) now s)) = 201"
  using assms
  by (auto simp: createComment_def Post_findByPk_def check_parent_def Comment_findByPk_def
      Comment_create_def Let_def json_def split: option.splits)

lemma createComment_bad_parent:
  assumes "q \<noteq> 0"
    and "find (\<lambda>x. comment_id x = q) (comments s) = None
         \<or> (\<exists>par. find (\<lambda>x. comment_id x = q) (comments s) = Some par
                \<and> comment_postId par \<noteq> postId)"
  shows "status (fst (createComment (Some u) content postId (Some q) now s)) = 404
       \<and> snd (createComment (Some u) content postId (Some q) now s) = s"
  using assms
  by (auto simp: createComment_def Post_findByPk_def check_parent_def Comment_findByPk_def
      json_def split: option.splits)

text \<open>
  Claim C4. For \<open>createComment\<close> with a \<open>parentId\<close> supplied (a non-zero id, as the
  request schema admits): the call creates the comment (201) only if a comment with that
  id exists and belongs to the post of the new comment; when the parent is absent or
  belongs to another post, the call answers 404 (NotFound) and the store is unchanged;
  with an existing post, a parent of that post and a content of valid length it does
  create the comment. So the invariant is kept by every call, whatever its arguments:
  in the store after it, every comment with a \<open>parentId\<close> references a comment of the
  same post.
\<close>

theorem createComment_checks_parent:
  "(q \<noteq> 0 \<and> status (fst (createComment user content postId (Some q) now s)) = 201
    \<longrightarrow> (\<exists>par. find (\<lambda>x. comment_id x = q) (comments s) = Some par
             \<and> comment_postId par = postId))
   \<and> (q \<noteq> 0
       \<and> (find (\<lambda>x. comment_id x = q) (comments s) = None
          \<or> (\<exists>par. find (\<lambda>x. comment_id x = q) (comments s) = Some par
                 \<and> comment_postId par \<noteq> postId))
    \<longrightarrow> status (fst (createComment (Some u) content postId (Some q) now s)) = 404
        \<and> snd (createComment (Some u) content postId (Some q) now s) = s)
   \<and> (find (\<lambda>x. post_id x = postId) (posts s) = Some p
       \<and> find (\<lambda>x. comment_id x = q) (comments s) = Some par
       \<and> comment_postId par = postId \<and> 1 \<le> length content \<and> length content \<le> 5000
    \<longrightarrow> status (fst (createComment (Some u) content postId (Some q) now s)) = 201)
   \<and> (comment_ids_drawn s \<and> parents_in_same_post s
    \<longrightarrow> comment_ids_drawn (snd (createComment user content postId parentId now s))
        \<and> parents_in_same_post (snd (createComment user content postId parentId now s)))"
proof (intro conjI impI)
  assume a: "q \<noteq> 0 \<and> status (fst (createComment user content postId (Some q) now s)) = 201"
  then have "check_parent postId (Some q) s = None"
    using createComment_status_201 [of user content postId "Some q" now s] by simp
  with a show "\<exists>par. find (\<lambda>x. comment_id x = q) (comments s) = Some par
             \<and> comment_postId par = postId"
    using check_parent_None [of q postId s] by simp
next
  assume a: "q \<noteq> 0
       \<and> (find (\<lambda>x. comment_id x = q) (comments s) = None
          \<or> (\<exists>par. find (\<lambda>x. comment_id x = q) (comments s) = Some par
                 \<and> comment_postId par \<noteq> postId))"
  then show "status (fst (createComment (Some u) content postId (Some q) now s)) = 404"
    and "snd (createComment (Some u) content postId (Some q) now s) = s"
    using createComment_bad_parent [of q s postId u content now] by simp_all
next
  assume "find (\<lambda>x. post_id x = postId) (posts s) = Some p
       \<and> find (\<lambda>x. comment_id x = q) (comments s) = Some par
       \<and> comment_postId par = postId \<and> 1 \<le> length content \<and> length content \<le> 5000"
  then show "status (fst (createComment (Some u) content postId (Some q) now s)) = 201"
    using createComment_with_parent [of postId s p q par content u now] by simp
next
  assume a: "comment_ids_drawn s \<and> parents_in_same_post s"
  then show "comment_ids_drawn (snd (createComment user content postId parentId now s))"
    and "parents_in_same_post (snd (createComment user content postId parentId now s))"
    using createComment_keeps_invariant [of s user content postId parentId now] by simp_all
qed

theorem createComment_checks_parent_witness:
  "status (fst (createComment (Some bob) ''Reply'' 3 (Some 1) 300 blog)) = 404
   \<and> snd (createComment (Some bob) ''Reply'' 3 (Some 1) 300 blog) = blog
   \<and> status (fst (createComment (Some bob) ''Reply'' 1 (Some 1) 300 blog)) = 201
   \<and> (\<exists>par. find (\<lambda>x. comment_id x = 1) (comments blog) = Some par \<and> comment_postId par = 1)
   \<and> comment_ids_drawn (snd (createComment (Some bob) ''Reply'' 1 (Some 1) 300 blog))
   \<and> parents_in_same_post (snd (createComment (Some bob) ''Reply'' 1 (Some 1) 300 blog))"
proof -
  have one: "comment_postId comment1 = 1"
    by (simp add: comment1_def)
  have bad: "status (fst (createComment (Some bob) ''Reply'' 3 (Some 1) 300 blog)) = 404
             \<and> snd (createComment (Some bob) ''Reply'' 3 (Some 1) 300 blog) = blog"
    using createComment_checks_parent [of 1 _ _ 3 _ blog bob] find_comment1 one
    by simp
  have good: "status (fst (createComment (Some bob) ''Reply'' 1 (Some 1) 300 blog)) = 201"
    using createComment_checks_parent [of 1 _ "''Reply''" 1 300 blog bob post1 comment1]
      find_comment1 find_post1 one
    by simp
  show ?thesis
    using bad good blog_invariants
      createComment_checks_parent [of 1 "Some bob" "''Reply''" 1 300 blog bob post1 comment1 "Some 1"]
    by simp
qed

section \<open>Reading one post\<close>






section \<open>Listing the comments of a post\<close>

lemma window_Inr:
  assumes "limit_offset l (js_mul (js_sub k (Num 1)) l) rows = Inr pg"
  shows "\<exists>a c. l = Num a \<and> k = Num c \<and> 0 \<le> a \<and> 0 \<le> (c - 1) * a
           \<and> pg = take (nat a) (drop (nat ((c - 1) * a)) rows)"
  using assms
  by (cases l; cases k) (auto simp: limit_offset_def js_mul_def js_sub_def split: if_splits)

lemma window_ok:
  assumes "0 \<le> a" and "0 \<le> (c - 1) * a"
    and "a \<le> 9223372036854775807" and "(c - 1) * a \<le> 9223372036854775807"
  shows "limit_offset (Num a) (js_mul (js_sub (Num c) (Num 1)) (Num a)) rows
           = Inr (take (nat a) (drop (nat ((c - 1) * a)) rows))"
  using assms by (simp add: limit_offset_def js_mul_def js_sub_def)

text \<open>The page of top-level comments: newest first, then the window.\<close>

lemma getComments_200:
  assumes "status (getComments postId page limit s) = 200"
  shows "\<exists>n a k. parseInt postId = Num n
           \<and> find (\<lambda>x. post_id x = n) (posts s) \<noteq> None
           \<and> parseInt (case limit of None \<Rightarrow> ''20'' | Some l \<Rightarrow> l) = Num a
           \<and> parseInt (case page of None \<Rightarrow> ''1'' | Some p \<Rightarrow> p) = Num k
           \<and> 0 \<le> a \<and> 0 \<le> (k - 1) * a
           \<and> getComments postId page limit s
               = json 200 (CommentsBody
                   (map (\<lambda>c. \<lparr>ct_comment = c, ct_replies = replies_of c s\<rparr>)
                      (take (nat a) (drop (nat ((k - 1) * a))
                         (sort_key (\<lambda>c. - comment_createdAt c)
                            (filter (\<lambda>c. comment_postId c = n \<and> comment_parentId c = None)
                               (comments s))))))
                   \<lparr>currentPage = Num k, hasPrevPage = (1 < k)\<rparr>)"
proof -
  let ?l = "parseInt (case limit of None \<Rightarrow> ''20'' | Some l \<Rightarrow> l)"
  let ?k = "parseInt (case page of None \<Rightarrow> ''1'' | Some p \<Rightarrow> p)"
  from assms obtain n p where n: "parseInt postId = Num n"
    and p: "find (\<lambda>x. post_id x = n) (posts s) = Some p"
    by (cases "parseInt postId")
       (auto simp: getComments_def Let_def json_def internal_error_def Post_findByPk_def
          split: option.splits)
  let ?all = "sort_key (\<lambda>c. - comment_createdAt c)
                (filter (\<lambda>c. comment_postId c = n \<and> comment_parentId c = None) (comments s))"
  from assms n p obtain pg where
    w: "limit_offset ?l (js_mul (js_sub ?k (Num 1)) ?l) ?all = Inr pg"
    by (cases "limit_offset ?l (js_mul (js_sub ?k (Num 1)) ?l) ?all")
       (auto simp: getComments_def Let_def json_def internal_error_def Post_findByPk_def
          Comment_findAndCountAll_def)
  from window_Inr [OF w] obtain a c where
    ac: "?l = Num a" "?k = Num c" "0 \<le> a" "0 \<le> (c - 1) * a"
      "pg = take (nat a) (drop (nat ((c - 1) * a)) ?all)"
    by blast
  have "getComments postId page limit s
          = json 200 (CommentsBody
              (map (\<lambda>c. \<lparr>ct_comment = c, ct_replies = replies_of c s\<rparr>) pg)
              \<lparr>currentPage = Num c, hasPrevPage = (1 < c)\<rparr>)"
    using n p w ac(1,2)
    by (simp add: getComments_def Let_def Post_findByPk_def Comment_findAndCountAll_def
        js_gt_def)
  with n p ac show ?thesis
    by auto
qed

lemma getComments_not_200:
  assumes "status (getComments postId page limit s) \<noteq> 200"
  shows "top_level_rows (getComments postId page limit s) = []
       \<and> reply_rows (getComments postId page limit s) = []"
  using assms
  by (auto simp: getComments_def Let_def json_def internal_error_def top_level_rows_def
      reply_rows_def split: sum.splits option.splits jsnum.splits)

lemma getComments_existing:
  assumes "parseInt postId = Num n" and "find (\<lambda>x. post_id x = n) (posts s) = Some p"
    and "parseInt (case limit of None \<Rightarrow> ''20'' | Some l \<Rightarrow> l) = Num a"
    and "parseInt (case page of None \<Rightarrow> ''1'' | Some p \<Rightarrow> p) = Num k"
    and "0 \<le> a" and "0 \<le> (k - 1) * a"
    and "safe_integer a" and "safe_integer ((k - 1) * a)"
  shows "status (getComments postId page limit s) = 200"
proof -
  have "a \<le> 9223372036854775807" and "(k - 1) * a \<le> 9223372036854775807"
    using assms(7,8) by (simp_all add: safe_integer_def)
  with assms show ?thesis
    by (simp add: getComments_def Let_def json_def Post_findByPk_def
        Comment_findAndCountAll_def window_ok)
qed

lemma newest_first_sorted:
  "sorted_wrt (\<lambda>x y. comment_createdAt y \<le> comment_createdAt x)
     (take a (drop b (sort_key (\<lambda>c. - comment_createdAt c) cs)))"
proof -
  have "sorted (map (\<lambda>c. - comment_createdAt c) (sort_key (\<lambda>c. - comment_createdAt c) cs))"
    by (rule sorted_sort_key)
  then have "sorted_wrt (\<lambda>x y. comment_createdAt y \<le> comment_createdAt x)
               (sort_key (\<lambda>c. - comment_createdAt c) cs)"
    by (simp add: sorted_map)
  then show ?thesis
    by (intro sorted_wrt_take sorted_wrt_drop)
qed

lemma replies_of_set:
  "set (replies_of c s) = {r \<in> set (comments s). comment_parentId r = Some (comment_id c)}"
  by (auto simp: replies_of_def)

lemma getComments_blog:
  "getComments ''1'' None None blog
     = json 200 (CommentsBody
         [\<lparr>ct_comment = comment2, ct_replies = []\<rparr>,
          \<lparr>ct_comment = comment1, ct_replies = [comment3]\<rparr>]
         \<lparr>currentPage = Num 1, hasPrevPage = False\<rparr>)"
proof -
  have twenty: "parseInt ''20'' = Num 20"
    by (simp add: parseInt_def StrWhiteSpaceChar_def digit_of_def)
  have w: "limit_offset (Num 20) (js_mul (js_sub (Num 1) (Num 1)) (Num 20)) rows
             = Inr (take 20 rows)" for rows :: "comment list"
    by (simp add: limit_offset_def js_mul_def js_sub_def)
  have tops: "filter (\<lambda>c. comment_postId c = 1 \<and> comment_parentId c = None) (comments blog)
                = [comment1, comment2]"
    by (simp add: blog_def comment1_def comment2_def comment3_def comment4_def)
  have srt: "sort_key (\<lambda>c. - comment_createdAt c) [comment1, comment2] = [comment2, comment1]"
    by (simp add: comment1_def comment2_def)
  have r1: "replies_of comment1 blog = [comment3]"
    by (simp add: replies_of_def blog_def comment1_def comment2_def comment3_def
        comment4_def)
  have r2: "replies_of comment2 blog = []"
    by (simp add: replies_of_def blog_def comment1_def comment2_def comment3_def
        comment4_def)
  have newest: "sort_key (\<lambda>c. - comment_createdAt c)
                  (filter (\<lambda>c. comment_postId c = 1 \<and> comment_parentId c = None)
                     (comments blog))
                = [comment2, comment1]"
    using tops srt by simp
  show ?thesis
    by (simp add: getComments_def Let_def parseInt_1 twenty Post_findByPk_def find_post1
        Comment_findAndCountAll_def w newest r1 r2 js_gt_def)
qed

text \<open>
  Claim C6 says that \<open>getComments\<close> lists the top-level comments oldest first. On the
  small blog the two top-level comments of post 1 come back with creation times 120 then
  110: the order is not ascending.
\<close>

theorem getComments_oldest_first_fails:
  "map comment_createdAt (top_level_rows (getComments ''1'' None None blog)) = [120, 110]
   \<and> \<not> sorted (map comment_createdAt (top_level_rows (getComments ''1'' None None blog)))"
  by (simp add: getComments_blog top_level_rows_def json_def comment1_def comment2_def)

text \<open>
  Claim C6, amended. \<open>getComments\<close> lists top-level comments of the post (rows of the
  post with no \<open>parentId\<close>) ordered by creation time descending, newest first; a
  successful response holds the page window \<open>limit\<close>, \<open>(page - 1) * limit\<close> of
  that order, and every listed comment carries exactly its direct replies. For an
  existing post and a window within the exact integers the call succeeds.
\<close>

theorem getComments_newest_first:
  "sorted_wrt (\<lambda>x y. comment_createdAt y \<le> comment_createdAt x)
     (top_level_rows (getComments postId page limit s))
   \<and> (\<forall>c \<in> set (top_level_rows (getComments postId page limit s)).
         c \<in> set (comments s) \<and> comment_parentId c = None
         \<and> parseInt postId = Num (comment_postId c))
   \<and> (status (getComments postId page limit s) = 200
       \<longrightarrow> (\<exists>n a k. parseInt postId = Num n
              \<and> parseInt (case limit of None \<Rightarrow> ''20'' | Some l \<Rightarrow> l) = Num a
              \<and> parseInt (case page of None \<Rightarrow> ''1'' | Some p \<Rightarrow> p) = Num k
              \<and> top_level_rows (getComments postId page limit s)
                  = take (nat a) (drop (nat ((k - 1) * a))
                      (sort_key (\<lambda>c. - comment_createdAt c)
                         (filter (\<lambda>c. comment_postId c = n \<and> comment_parentId c = None)
                            (comments s))))))
   \<and> list_all2
        (\<lambda>c rs. set rs = {r \<in> set (comments s). comment_parentId r = Some (comment_id c)})
        (top_level_rows (getComments postId page limit s))
        (reply_rows (getComments postId page limit s))
   \<and> (parseInt postId = Num n \<and> find (\<lambda>x. post_id x = n) (posts s) = Some p
       \<and> parseInt (case limit of None \<Rightarrow> ''20'' | Some l \<Rightarrow> l) = Num a
       \<and> parseInt (case page of None \<Rightarrow> ''1'' | Some p \<Rightarrow> p) = Num k
       \<and> 0 \<le> a \<and> 0 \<le> (k - 1) * a
       \<and> safe_integer n \<and> safe_integer k \<and> safe_integer a \<and> safe_integer ((k - 1) * a)
       \<longrightarrow> status (getComments postId page limit s) = 200)"
proof (cases "status (getComments postId page limit s) = 200")
  case False
  from getComments_not_200 [OF False]
  have e: "top_level_rows (getComments postId page limit s) = []"
    "reply_rows (getComments postId page limit s) = []"
    by simp_all
  have "\<not> (parseInt postId = Num n \<and> find (\<lambda>x. post_id x = n) (posts s) = Some p
       \<and> parseInt (case limit of None \<Rightarrow> ''20'' | Some l \<Rightarrow> l) = Num a
       \<and> parseInt (case page of None \<Rightarrow> ''1'' | Some p \<Rightarrow> p) = Num k
       \<and> 0 \<le> a \<and> 0 \<le> (k - 1) * a
       \<and> safe_integer n \<and> safe_integer k \<and> safe_integer a \<and> safe_integer ((k - 1) * a))"
    using False getComments_existing [of postId n s p limit a page k] by blast
  with False e show ?thesis
    by simp
next
  case True
  from getComments_200 [OF True] obtain m b j where
    m: "parseInt postId = Num m"
    and b: "parseInt (case limit of None \<Rightarrow> ''20'' | Some l \<Rightarrow> l) = Num b"
    and j: "parseInt (case page of None \<Rightarrow> ''1'' | Some p \<Rightarrow> p) = Num j"
    and r: "getComments postId page limit s
               = json 200 (CommentsBody
                   (map (\<lambda>c. \<lparr>ct_comment = c, ct_replies = replies_of c s\<rparr>)
                      (take (nat b) (drop (nat ((j - 1) * b))
                         (sort_key (\<lambda>c. - comment_createdAt c)
                            (filter (\<lambda>c. comment_postId c = m \<and> comment_parentId c = None)
                               (comments s))))))
                   \<lparr>currentPage = Num j, hasPrevPage = (1 < j)\<rparr>)"
    by blast
  let ?pg = "take (nat b) (drop (nat ((j - 1) * b))
               (sort_key (\<lambda>c. - comment_createdAt c)
                  (filter (\<lambda>c. comment_postId c = m \<and> comment_parentId c = None)
                     (comments s))))"
  have rows: "top_level_rows (getComments postId page limit s) = ?pg"
    by (simp add: r top_level_rows_def json_def comp_def)
  have reps: "reply_rows (getComments postId page limit s)
                = map (\<lambda>c. replies_of c s) ?pg"
    by (simp add: r reply_rows_def json_def comp_def)
  have 1: "sorted_wrt (\<lambda>x y. comment_createdAt y \<le> comment_createdAt x) ?pg"
    by (rule newest_first_sorted)
  have 2: "\<forall>c \<in> set ?pg. c \<in> set (comments s) \<and> comment_parentId c = None
             \<and> parseInt postId = Num (comment_postId c)"
  proof
    fix c
    assume "c \<in> set ?pg"
    then have "c \<in> set (sort_key (\<lambda>c. - comment_createdAt c)
                  (filter (\<lambda>c. comment_postId c = m \<and> comment_parentId c = None)
                     (comments s)))"
      by (meson in_set_dropD in_set_takeD)
    then show "c \<in> set (comments s) \<and> comment_parentId c = None
             \<and> parseInt postId = Num (comment_postId c)"
      using m by simp
  qed
  have 3: "list_all2
        (\<lambda>c rs. set rs = {r \<in> set (comments s). comment_parentId r = Some (comment_id c)})
        ?pg (map (\<lambda>c. replies_of c s) ?pg)"
    by (simp add: list_all2_map2 list_all2_same replies_of_set)
  show ?thesis
    unfolding rows reps using 1 2 3 m b j True by blast
qed

theorem getComments_newest_first_witness:
  "status (getComments ''1'' None None blog) = 200
   \<and> top_level_rows (getComments ''1'' None None blog) = [comment2, comment1]
   \<and> sorted_wrt (\<lambda>x y. comment_createdAt y \<le> comment_createdAt x)
        (top_level_rows (getComments ''1'' None None blog))
   \<and> list_all2
        (\<lambda>c rs. set rs = {r \<in> set (comments blog). comment_parentId r = Some (comment_id c)})
        (top_level_rows (getComments ''1'' None None blog))
        (reply_rows (getComments ''1'' None None blog))"
proof -
  have twenty: "parseInt ''20'' = Num 20"
    by (simp add: parseInt_def StrWhiteSpaceChar_def digit_of_def)
  have rows: "top_level_rows (getComments ''1'' None None blog) = [comment2, comment1]"
    by (simp add: getComments_blog top_level_rows_def json_def)
  have st: "status (getComments ''1'' None None blog) = 200"
    using getComments_newest_first [of "''1''" None None blog 1 post1 20 1]
      parseInt_1 twenty find_post1
    by (simp add: safe_integer_def)
  have rest: "sorted_wrt (\<lambda>x y. comment_createdAt y \<le> comment_createdAt x)
        (top_level_rows (getComments ''1'' None None blog))
   \<and> list_all2
        (\<lambda>c rs. set rs = {r \<in> set (comments blog). comment_parentId r = Some (comment_id c)})
        (top_level_rows (getComments ''1'' None None blog))
        (reply_rows (getComments ''1'' None None blog))"
    using getComments_newest_first [of "''1''" None None blog 1 post1 20 1]
    by blast
  from st rows rest show ?thesis
    by blast
qed

section \<open>Page, limit and sort column of the post listing\<close>

lemma listing_rejects:
  assumes "post_column c = None \<or> l = NaN \<or> k = NaN
           \<or> (\<exists>a. l = Num a \<and> a < 0) \<or> (\<exists>a b. l = Num a \<and> k = Num b \<and> (b - 1) * a < 0)"
  shows "\<exists>e. Post_findAndCountAll X w l (js_mul (js_sub k (Num 1)) l) c d s = Inl e"
  using assms
  by (cases l; cases k)
     (auto simp: Post_findAndCountAll_def limit_offset_def js_mul_def js_sub_def
        split: option.splits)

lemma listing_accepts:
  assumes "Post_findAndCountAll X w l (js_mul (js_sub k (Num 1)) l) c d s = Inr rows"
  shows "\<exists>a b. l = Num a \<and> k = Num b \<and> 0 \<le> a \<and> 0 \<le> (b - 1) * a
           \<and> post_column c \<noteq> None \<and> length rows \<le> nat a"
  using assms
  by (cases l; cases k)
     (auto simp: Post_findAndCountAll_def limit_offset_def js_mul_def js_sub_def
        split: option.splits if_splits)

lemma getPosts_defaults:
  "getPosts X user (q\<lparr>q_page := None\<rparr>) s = getPosts X user (q\<lparr>q_page := Some ''1''\<rparr>) s"
  "getPosts X user (q\<lparr>q_limit := None\<rparr>) s = getPosts X user (q\<lparr>q_limit := Some ''10''\<rparr>) s"
  by (simp_all add: getPosts_def build_where_def)

lemma parseInt_minus_5: "parseInt ''-5'' = Num (- 5)"
  by (simp add: parseInt_def StrWhiteSpaceChar_def digit_of_def)

lemma post_column_bogus: "post_column ''bogus'' = None"
  by (simp add: post_column_def)

lemma getPosts_blog_status: "status (fst (getPosts plain None no_query blog)) = 200"
  using getPosts_listed [OF blog_first_page, of None] by (simp add: json_def)

lemma query_abc:
  "pageNumber_of (no_query\<lparr>q_page := Some ''abc''\<rparr>) = NaN"
  "limitNumber_of (no_query\<lparr>q_limit := Some ''-5''\<rparr>) = Num (- 5)"
  "sortBy_of (no_query\<lparr>q_sortBy := Some ''bogus''\<rparr>) = ''bogus''"
  by (simp_all add: pageNumber_of_def limitNumber_of_def sortBy_of_def parseInt_abc
      parseInt_minus_5)

text \<open>
  Claim C7 says that an invalid \<open>page\<close> or \<open>limit\<close> falls back to the defaults and
  that an unknown \<open>sortBy\<close> is rejected with a validation error. On the small blog the
  request with no query string succeeds, while \<open>page=abc\<close>, \<open>limit=-5\<close> and
  \<open>sortBy=bogus\<close> are each answered 500 (Internal).
\<close>

theorem getPosts_does_not_fall_back:
  "status (fst (getPosts plain None no_query blog)) = 200
   \<and> fst (getPosts plain None (no_query\<lparr>q_page := Some ''abc''\<rparr>) blog)
       = json 500 (ErrorBody ''Internal server error'')
   \<and> fst (getPosts plain None (no_query\<lparr>q_limit := Some ''-5''\<rparr>) blog)
       = json 500 (ErrorBody ''Internal server error'')
   \<and> fst (getPosts plain None (no_query\<lparr>q_sortBy := Some ''bogus''\<rparr>) blog)
       = json 500 (ErrorBody ''Internal server error'')"
proof -
  have r: "fst (getPosts plain None q blog) = json 500 (ErrorBody ''Internal server error'')"
    if "post_column (sortBy_of q) = None \<or> limitNumber_of q = NaN \<or> pageNumber_of q = NaN
           \<or> (\<exists>a. limitNumber_of q = Num a \<and> a < 0)
           \<or> (\<exists>a b. limitNumber_of q = Num a \<and> pageNumber_of q = Num b \<and> (b - 1) * a < 0)"
    for q
  proof -
    from listing_rejects [OF that] obtain e where
      "Post_findAndCountAll plain (build_where q) (limitNumber_of q)
         (js_mul (js_sub (pageNumber_of q) (Num 1)) (limitNumber_of q))
         (sortBy_of q) (case q_sortOrder q of None \<Rightarrow> DESC | Some d \<Rightarrow> d) blog = Inl e"
      by blast
    from getPosts_rejected [OF this, of None] show ?thesis
      by (simp add: internal_error_def)
  qed
  show ?thesis
    using getPosts_blog_status
      r [of "no_query\<lparr>q_page := Some ''abc''\<rparr>"]
      r [of "no_query\<lparr>q_limit := Some ''-5''\<rparr>"]
      r [of "no_query\<lparr>q_sortBy := Some ''bogus''\<rparr>"]
    by (simp add: query_abc post_column_bogus)
qed

text \<open>
  Claim C7, amended. \<open>getPosts\<close> takes the defaults \<open>page = 1\<close> and \<open>limit = 10\<close>
  when the parameter is absent, and only then. A supplied value is used as \<open>parseInt\<close>
  reads it: when \<open>page\<close> or \<open>limit\<close> is not numeric, or the limit or the offset
  \<open>(page - 1) * limit\<close> is negative, the store rejects the query and the answer is 500
  (Internal); an unknown \<open>sortBy\<close> column is not validated and is answered 500 as well.
  Every successful response reports the parsed page as \<open>currentPage\<close> and lists at most
  \<open>limit\<close> posts.
\<close>

theorem getPosts_uses_parameters_as_parsed:
  "getPosts X user (q\<lparr>q_page := None\<rparr>) s = getPosts X user (q\<lparr>q_page := Some ''1''\<rparr>) s
   \<and> getPosts X user (q\<lparr>q_limit := None\<rparr>) s = getPosts X user (q\<lparr>q_limit := Some ''10''\<rparr>) s
   \<and> (pageNumber_of q = NaN \<or> limitNumber_of q = NaN
        \<or> (\<exists>a. limitNumber_of q = Num a \<and> a < 0)
        \<or> (\<exists>a b. limitNumber_of q = Num a \<and> pageNumber_of q = Num b \<and> (b - 1) * a < 0)
      \<longrightarrow> fst (getPosts X user q s) = json 500 (ErrorBody ''Internal server error''))
   \<and> (post_column (sortBy_of q) = None
      \<longrightarrow> fst (getPosts X user q s) = json 500 (ErrorBody ''Internal server error''))
   \<and> (status (fst (getPosts X user q s)) = 200
      \<longrightarrow> (\<exists>a b rows pg. limitNumber_of q = Num a \<and> pageNumber_of q = Num b
              \<and> 0 \<le> a \<and> 0 \<le> (b - 1) * a \<and> post_column (sortBy_of q) \<noteq> None
              \<and> body (fst (getPosts X user q s)) = PostsBody rows pg
              \<and> currentPage pg = Num b \<and> length rows \<le> nat a))"
proof (intro conjI impI)
  show "getPosts X user (q\<lparr>q_page := None\<rparr>) s = getPosts X user (q\<lparr>q_page := Some ''1''\<rparr>) s"
    by (rule getPosts_defaults)
  show "getPosts X user (q\<lparr>q_limit := None\<rparr>) s = getPosts X user (q\<lparr>q_limit := Some ''10''\<rparr>) s"
    by (rule getPosts_defaults)
next
  assume "pageNumber_of q = NaN \<or> limitNumber_of q = NaN
        \<or> (\<exists>a. limitNumber_of q = Num a \<and> a < 0)
        \<or> (\<exists>a b. limitNumber_of q = Num a \<and> pageNumber_of q = Num b \<and> (b - 1) * a < 0)"
  then have "post_column (sortBy_of q) = None \<or> limitNumber_of q = NaN \<or> pageNumber_of q = NaN
           \<or> (\<exists>a. limitNumber_of q = Num a \<and> a < 0)
           \<or> (\<exists>a b. limitNumber_of q = Num a \<and> pageNumber_of q = Num b \<and> (b - 1) * a < 0)"
    by blast
  from listing_rejects [OF this] obtain e where
    "Post_findAndCountAll X (build_where q) (limitNumber_of q)
       (js_mul (js_sub (pageNumber_of q) (Num 1)) (limitNumber_of q))
       (sortBy_of q) (case q_sortOrder q of None \<Rightarrow> DESC | Some d \<Rightarrow> d) s = Inl e"
    by blast
  from getPosts_rejected [OF this, of user]
  show "fst (getPosts X user q s) = json 500 (ErrorBody ''Internal server error'')"
    by (simp add: internal_error_def)
next
  assume "post_column (sortBy_of q) = None"
  then have "post_column (sortBy_of q) = None \<or> limitNumber_of q = NaN \<or> pageNumber_of q = NaN
           \<or> (\<exists>a. limitNumber_of q = Num a \<and> a < 0)
           \<or> (\<exists>a b. limitNumber_of q = Num a \<and> pageNumber_of q = Num b \<and> (b - 1) * a < 0)"
    by blast
  from listing_rejects [OF this] obtain e where
    "Post_findAndCountAll X (build_where q) (limitNumber_of q)
       (js_mul (js_sub (pageNumber_of q) (Num 1)) (limitNumber_of q))
       (sortBy_of q) (case q_sortOrder q of None \<Rightarrow> DESC | Some d \<Rightarrow> d) s = Inl e"
    by blast
  from getPosts_rejected [OF this, of user]
  show "fst (getPosts X user q s) = json 500 (ErrorBody ''Internal server error'')"
    by (simp add: internal_error_def)
next
  assume ok: "status (fst (getPosts X user q s)) = 200"
  show "\<exists>a b rows pg. limitNumber_of q = Num a \<and> pageNumber_of q = Num b
              \<and> 0 \<le> a \<and> 0 \<le> (b - 1) * a \<and> post_column (sortBy_of q) \<noteq> None
              \<and> body (fst (getPosts X user q s)) = PostsBody rows pg
              \<and> currentPage pg = Num b \<and> length rows \<le> nat a"
  proof (cases "Post_findAndCountAll X (build_where q) (limitNumber_of q)
       (js_mul (js_sub (pageNumber_of q) (Num 1)) (limitNumber_of q))
       (sortBy_of q) (case q_sortOrder q of None \<Rightarrow> DESC | Some d \<Rightarrow> d) s")
    case (Inl e)
    from getPosts_rejected [OF Inl, of user] ok show ?thesis
      by (simp add: internal_error_def json_def)
  next
    case (Inr rows)
    from listing_accepts [OF Inr] obtain a b where
      "limitNumber_of q = Num a" "pageNumber_of q = Num b" "0 \<le> a" "0 \<le> (b - 1) * a"
      "post_column (sortBy_of q) \<noteq> None" "length rows \<le> nat a"
      by blast
    with getPosts_listed [OF Inr, of user] show ?thesis
      by (simp add: json_def)
  qed
qed

theorem getPosts_uses_parameters_as_parsed_witness:
  "fst (getPosts plain None (no_query\<lparr>q_page := Some ''abc''\<rparr>) blog)
       = json 500 (ErrorBody ''Internal server error'')
   \<and> fst (getPosts plain None (no_query\<lparr>q_sortBy := Some ''bogus''\<rparr>) blog)
       = json 500 (ErrorBody ''Internal server error'')
   \<and> (\<exists>a b rows pg. limitNumber_of no_query = Num a \<and> pageNumber_of no_query = Num b
              \<and> 0 \<le> a \<and> 0 \<le> (b - 1) * a \<and> post_column (sortBy_of no_query) \<noteq> None
              \<and> body (fst (getPosts plain None no_query blog)) = PostsBody rows pg
              \<and> currentPage pg = Num b \<and> length rows \<le> nat a)"
proof -
  have a: "fst (getPosts plain None (no_query\<lparr>q_page := Some ''abc''\<rparr>) blog)
       = json 500 (ErrorBody ''Internal server error'')"
    using getPosts_uses_parameters_as_parsed [of plain None "no_query\<lparr>q_page := Some ''abc''\<rparr>" blog]
    by (simp add: query_abc)
  have b: "fst (getPosts plain None (no_query\<lparr>q_sortBy := Some ''bogus''\<rparr>) blog)
       = json 500 (ErrorBody ''Internal server error'')"
    using getPosts_uses_parameters_as_parsed [of plain None "no_query\<lparr>q_sortBy := Some ''bogus''\<rparr>" blog]
    by (simp add: query_abc post_column_bogus)
  have c: "\<exists>a b rows pg. limitNumber_of no_query = Num a \<and> pageNumber_of no_query = Num b
              \<and> 0 \<le> a \<and> 0 \<le> (b - 1) * a \<and> post_column (sortBy_of no_query) \<noteq> None
              \<and> body (fst (getPosts plain None no_query blog)) = PostsBody rows pg
              \<and> currentPage pg = Num b \<and> length rows \<le> nat a"
    using getPosts_uses_parameters_as_parsed [of plain None no_query blog] getPosts_blog_status
    by blast
  from a b c show ?thesis
    by blast
qed

section \<open>Two toggles that read before either writes\<close>

text \<open>
  The race of the like toggle: two requests of one user for one post both run their
  reads on the same store, so both make the same choice, and then the writes run one after
  the other.
\<close>

lemma likePost_read_LikeCreate:
  assumes "likePost_read user ident s = LikeCreate pid uid"
  shows "\<not> (\<exists>l \<in> set (likes s). like_userId l = uid \<and> like_postId l = pid)"
  using assms
  by (auto simp: likePost_read_def Post_findByPk_def Like_findOne_def find_None_iff
      split: option.splits sum.splits jsnum.splits)

lemma Like_create_twice:
  assumes "\<not> (\<exists>l \<in> set (likes s). like_userId l = uid \<and> like_postId l = pid)"
  shows "\<exists>l s1 s2.
           likePost_write (LikeCreate pid uid) t1 s = (json 200 (LikedBody ''Post liked'' True), s1)
         \<and> likePost_write (LikeCreate pid uid) t2 s1 = (internal_error, s2)
         \<and> likes s1 = likes s @ [l] \<and> likes s2 = likes s1 \<and> like_rows uid pid s2 = [l]"
proof -
  let ?l = "\<lparr>like_id = nextLikeId s, like_userId = uid, like_postId = pid,
             like_createdAt = t1, like_updatedAt = t1\<rparr>"
  let ?s1 = "s\<lparr>nextLikeId := nextLikeId s + 1, likes := likes s @ [?l]\<rparr>"
  let ?s2 = "?s1\<lparr>nextLikeId := nextLikeId ?s1 + 1\<rparr>"
  have none: "filter (\<lambda>l. like_userId l = uid \<and> like_postId l = pid) (likes s) = []"
    using assms by (auto simp: filter_empty_conv)
  have a: "likePost_write (LikeCreate pid uid) t1 s
             = (json 200 (LikedBody ''Post liked'' True), ?s1)"
    using assms by (auto simp: likePost_write_def Like_create_def Let_def)
  have b: "likePost_write (LikeCreate pid uid) t2 ?s1 = (internal_error, ?s2)"
    by (simp add: likePost_write_def Like_create_def Let_def)
  have c: "like_rows uid pid ?s2 = [?l]"
    using none by (simp add: like_rows_def)
  from a b c show ?thesis
    by (intro exI [of _ ?l] exI [of _ ?s1] exI [of _ ?s2]) simp
qed

lemma Like_destroy_twice:
  "likePost_write (LikeDestroy l) t1 s
     = (json 200 (LikedBody ''Post unliked'' False), Like_destroy l s)
   \<and> likePost_write (LikeDestroy l) t2 (Like_destroy l s)
     = (json 200 (LikedBody ''Post unliked'' False), Like_destroy l s)"
  by (simp add: likePost_write_def Like_destroy_def)

lemma read_alice: "likePost_read (Some alice) ''1'' blog = LikeCreate 1 1"
  by (simp add: likePost_read_def parseInt_1 Post_findByPk_def find_post1 Like_findOne_def
      blog_def like1_def post1_def alice_def)

lemma read_bob: "likePost_read (Some bob) ''1'' blog = LikeDestroy like1"
  by (simp add: likePost_read_def parseInt_1 Post_findByPk_def find_post1 Like_findOne_def
      blog_def like1_def post1_def bob_def)

text \<open>
  Claim C8 says that the insert rejected by the unique index is reported as a success.
  On the small blog, where alice has not liked post 1, both requests choose to insert;
  the first insert reports \<open>liked = true\<close> and the second, rejected by the index, is
  answered 500 (Internal).
\<close>

theorem likePost_duplicate_insert_is_500:
  "likePost_read (Some alice) ''1'' blog = LikeCreate 1 1
   \<and> fst (likePost_write (LikeCreate 1 1) 200 blog) = json 200 (LikedBody ''Post liked'' True)
   \<and> fst (likePost_write (LikeCreate 1 1) 201 (snd (likePost_write (LikeCreate 1 1) 200 blog)))
       = json 500 (ErrorBody ''Internal server error'')"
proof (intro conjI)
  show "likePost_read (Some alice) ''1'' blog = LikeCreate 1 1"
    by (rule read_alice)
  show "fst (likePost_write (LikeCreate 1 1) 200 blog) = json 200 (LikedBody ''Post liked'' True)"
    by (simp add: likePost_write_def Like_create_def Let_def blog_def like1_def)
  show "fst (likePost_write (LikeCreate 1 1) 201 (snd (likePost_write (LikeCreate 1 1) 200 blog)))
       = json 500 (ErrorBody ''Internal server error'')"
    by (simp add: likePost_write_def Like_create_def Let_def internal_error_def blog_def
        like1_def)
qed

text \<open>
  Claim C8, amended. When both requests have chosen to insert, the first write stores the
  Like row and the second is rejected by the unique index on \<open>(userId, postId)\<close>: it
  stores no row, exactly one row of the pair remains, and the request is answered 500
  (Internal). When both have chosen to delete, the second delete removes nothing, leaves
  the store as the first left it, and is reported as the success \<open>liked = false\<close>.
\<close>

theorem likePost_race:
  "(likePost_read user ident s = LikeCreate pid uid
    \<longrightarrow> (\<exists>l s1 s2.
           likePost_write (LikeCreate pid uid) t1 s
             = (json 200 (LikedBody ''Post liked'' True), s1)
         \<and> likePost_write (LikeCreate pid uid) t2 s1 = (internal_error, s2)
         \<and> likes s1 = likes s @ [l] \<and> likes s2 = likes s1 \<and> like_rows uid pid s2 = [l]))
   \<and> (likePost_read user ident s = LikeDestroy l
    \<longrightarrow> (\<exists>s1.
           likePost_write (LikeDestroy l) t1 s
             = (json 200 (LikedBody ''Post unliked'' False), s1)
         \<and> likePost_write (LikeDestroy l) t2 s1
             = (json 200 (LikedBody ''Post unliked'' False), s1)
         \<and> likes s1 = filter (\<lambda>x. like_id x \<noteq> like_id l) (likes s)))"
proof (intro conjI impI)
  assume "likePost_read user ident s = LikeCreate pid uid"
  from Like_create_twice [OF likePost_read_LikeCreate [OF this], of t1 t2]
  show "\<exists>l s1 s2.
           likePost_write (LikeCreate pid uid) t1 s
             = (json 200 (LikedBody ''Post liked'' True), s1)
         \<and> likePost_write (LikeCreate pid uid) t2 s1 = (internal_error, s2)
         \<and> likes s1 = likes s @ [l] \<and> likes s2 = likes s1 \<and> like_rows uid pid s2 = [l]" .
next
  assume "likePost_read user ident s = LikeDestroy l"
  from Like_destroy_twice [of l t1 s t2]
  show "\<exists>s1. likePost_write (LikeDestroy l) t1 s
             = (json 200 (LikedBody ''Post unliked'' False), s1)
         \<and> likePost_write (LikeDestroy l) t2 s1
             = (json 200 (LikedBody ''Post unliked'' False), s1)
         \<and> likes s1 = filter (\<lambda>x. like_id x \<noteq> like_id l) (likes s)"
    by (intro exI [of _ "Like_destroy l s"]) (simp add: Like_destroy_def)
qed

theorem likePost_race_witness:
  "(\<exists>l s1 s2.
       likePost_write (LikeCreate 1 1) 200 blog = (json 200 (LikedBody ''Post liked'' True), s1)
     \<and> likePost_write (LikeCreate 1 1) 201 s1 = (internal_error, s2)
     \<and> likes s1 = likes blog @ [l] \<and> likes s2 = likes s1 \<and> like_rows 1 1 s2 = [l])
   \<and> (\<exists>s1.
       likePost_write (LikeDestroy like1) 200 blog
         = (json 200 (LikedBody ''Post unliked'' False), s1)
     \<and> likePost_write (LikeDestroy like1) 201 s1
         = (json 200 (LikedBody ''Post unliked'' False), s1)
     \<and> likes s1 = filter (\<lambda>x. like_id x \<noteq> like_id like1) (likes blog))"
  using likePost_race [of "Some alice" "''1''" blog 1 1 200 201] read_alice
    likePost_race [of "Some bob" "''1''" blog _ _ 200 201 like1] read_bob
  by blast

section \<open>Creating a post\<close>

lemma createPost_valid:
  assumes "1 \<le> length title" "length title \<le> 255" "1 \<le> length content"
    "length content \<le> 50000" "imageUrl = None \<or> (\<exists>url. imageUrl = Some url \<and> ext_isUrl X url)"
  shows "\<exists>r s'. createPost X (Some u) title content None imageUrl tags now s = (r, s')
           \<and> status r = 201
           \<and> posts s' = posts s @
               [\<lparr>post_id = nextPostId s, post_title = title, post_content = content,
                 post_excerpt = Some (take 200 content @ ''...''), post_imageUrl = imageUrl,
                 post_isPublished = True, post_publishedAt = Some now,
                 post_viewCount = 0, post_authorId = user_id u,
                 post_createdAt = now, post_updatedAt = now\<rparr>]"
proof -
  have ne: "content \<noteq> []"
    using assms(3) by auto
  show ?thesis
    using assms ne
    by (auto simp: createPost_def Post_create_def Post_findByPk_def beforeCreate_def Let_def
        json_def split: sum.splits)
qed

lemma createPost_status_201:
  assumes "status (fst (createPost X (Some u) title content excerpt imageUrl tags now s)) = 201"
  shows "1 \<le> length title \<and> length title \<le> 255 \<and> 1 \<le> length content
       \<and> length content \<le> 50000
       \<and> (imageUrl = None \<or> (\<exists>url. imageUrl = Some url \<and> ext_isUrl X url))"
  using assms
  by (auto simp: createPost_def Post_create_def Post_findByPk_def Let_def json_def
      internal_error_def Suc_le_eq split: if_splits option.splits)

text \<open>
  Claim C9. When \<open>createPost\<close> is called with no excerpt and creates the post (201),
  the stored row carries the content and, as excerpt, the first 200 characters of the
  content followed by the marker \<open>...\<close>; and the call does create the post when
  title, content and image URL pass the model's validation (so the content is not
  empty).
\<close>

theorem createPost_derives_excerpt:
  "(status (fst (createPost X (Some u) title content None imageUrl tags now s)) = 201
    \<longrightarrow> (\<exists>p. posts (snd (createPost X (Some u) title content None imageUrl tags now s))
               = posts s @ [p]
             \<and> post_content p = content
             \<and> post_excerpt p = Some (take 200 content @ ''...'')))
   \<and> (1 \<le> length title \<and> length title \<le> 255 \<and> 1 \<le> length content
        \<and> length content \<le> 50000
        \<and> (imageUrl = None \<or> (\<exists>url. imageUrl = Some url \<and> ext_isUrl X url))
    \<longrightarrow> status (fst (createPost X (Some u) title content None imageUrl tags now s)) = 201)"
proof (intro conjI impI)
  assume ok: "status (fst (createPost X (Some u) title content None imageUrl tags now s)) = 201"
  from createPost_status_201 [OF ok]
  have v: "1 \<le> length title" "length title \<le> 255" "1 \<le> length content"
    "length content \<le> 50000" "imageUrl = None \<or> (\<exists>url. imageUrl = Some url \<and> ext_isUrl X url)"
    by simp_all
  from createPost_valid [OF v, of u tags now s]
  show "\<exists>p. posts (snd (createPost X (Some u) title content None imageUrl tags now s))
               = posts s @ [p]
             \<and> post_content p = content
             \<and> post_excerpt p = Some (take 200 content @ ''...'')"
    by auto
next
  assume "1 \<le> length title \<and> length title \<le> 255 \<and> 1 \<le> length content
        \<and> length content \<le> 50000
        \<and> (imageUrl = None \<or> (\<exists>url. imageUrl = Some url \<and> ext_isUrl X url))"
  then have v: "1 \<le> length title" "length title \<le> 255" "1 \<le> length content"
    "length content \<le> 50000" "imageUrl = None \<or> (\<exists>url. imageUrl = Some url \<and> ext_isUrl X url)"
    by simp_all
  from createPost_valid [OF v, of u tags now s]
  show "status (fst (createPost X (Some u) title content None imageUrl tags now s)) = 201"
    by auto
qed

text \<open>The scenario of the specification: 300 characters of content and no excerpt.\<close>

theorem createPost_derives_excerpt_witness:
  "status (fst (createPost plain (Some bob) ''Long'' (replicate 300 CHR ''a'') None None
      None 300 blog)) = 201
   \<and> (\<exists>p. posts (snd (createPost plain (Some bob) ''Long'' (replicate 300 CHR ''a'') None None
             None 300 blog)) = posts blog @ [p]
          \<and> post_content p = replicate 300 CHR ''a''
          \<and> post_excerpt p = Some (replicate 200 CHR ''a'' @ ''...''))"
proof -
  have ok: "status (fst (createPost plain (Some bob) ''Long'' (replicate 300 CHR ''a'') None
      None None 300 blog)) = 201"
    using createPost_derives_excerpt
        [of plain bob "''Long''" "replicate 300 CHR ''a''" None None 300 blog]
    by simp
  show ?thesis
    using ok createPost_derives_excerpt
        [of plain bob "''Long''" "replicate 300 CHR ''a''" None None 300 blog]
    by simp
qed

section \<open>The moderation flag\<close>

lemma insort_key_map:
  assumes "\<And>x. f (g x) = f x"
  shows "insort_key f (g x) (map g xs) = map g (insort_key f x xs)"
  using assms by (induction xs) auto

lemma sort_key_map:
  assumes "\<And>x. f (g x) = f x"
  shows "sort_key f (map g xs) = map g (sort_key f xs)"
  using assms by (induction xs) (auto simp: insort_key_map)

lemma filter_map_invariant:
  assumes "\<And>x. P (g x) = P x"
  shows "filter P (map g xs) = map g (filter P xs)"
  using assms by (induction xs) auto

lemma find_map_invariant:
  assumes "\<And>x. P (g x) = P x"
  shows "find P (map g xs) = map_option g (find P xs)"
  using assms by (induction xs) auto

lemma hide_approval_fields [simp]:
  "comment_id (hide_approval c) = comment_id c"
  "comment_content (hide_approval c) = comment_content c"
  "comment_postId (hide_approval c) = comment_postId c"
  "comment_authorId (hide_approval c) = comment_authorId c"
  "comment_parentId (hide_approval c) = comment_parentId c"
  "comment_createdAt (hide_approval c) = comment_createdAt c"
  "comment_updatedAt (hide_approval c) = comment_updatedAt c"
  by (simp_all add: hide_approval_def)

lemma store_hide_approval_fields [simp]:
  "posts (store_hide_approval s) = posts s"
  "likes (store_hide_approval s) = likes s"
  "comments (store_hide_approval s) = map hide_approval (comments s)"
  "nextPostId (store_hide_approval s) = nextPostId s"
  "nextCommentId (store_hide_approval s) = nextCommentId s"
  "nextLikeId (store_hide_approval s) = nextLikeId s"
  by (simp_all add: store_hide_approval_def)

lemma Post_findByPk_hidden: "Post_findByPk k (store_hide_approval s) = Post_findByPk k s"
  by (cases k) (simp_all add: Post_findByPk_def)

lemma Like_count_hidden: "Like_count n (store_hide_approval s) = Like_count n s"
  by (simp add: Like_count_def)

lemma Like_findOne_hidden: "Like_findOne n m (store_hide_approval s) = Like_findOne n m s"
  by (simp add: Like_findOne_def)

lemma Comment_count_hidden: "Comment_count n (store_hide_approval s) = Comment_count n s"
  by (simp add: Comment_count_def filter_map_invariant)

lemma limit_offset_map:
  "limit_offset l k (map g rows) = map_sum id (map g) (limit_offset l k rows)"
  by (simp add: limit_offset_def take_map drop_map split: jsnum.splits)

lemma replies_of_hidden:
  "replies_of (hide_approval c) (store_hide_approval s) = map hide_approval (replies_of c s)"
  by (simp add: replies_of_def filter_map_invariant)

lemma Comment_findAndCountAll_hidden:
  "Comment_findAndCountAll pid l k (store_hide_approval s)
     = map_sum id (map tree_hide_approval) (Comment_findAndCountAll pid l k s)"
proof -
  let ?top = "\<lambda>c. comment_postId c = pid \<and> comment_parentId c = None"
  have "sort_key (\<lambda>c. - comment_createdAt c) (filter ?top (map hide_approval (comments s)))
          = map hide_approval (sort_key (\<lambda>c. - comment_createdAt c) (filter ?top (comments s)))"
    by (simp add: filter_map_invariant sort_key_map)
  then show ?thesis
    by (cases "limit_offset l k
                 (sort_key (\<lambda>c. - comment_createdAt c) (filter ?top (comments s)))")
       (simp_all add: Comment_findAndCountAll_def limit_offset_map replies_of_hidden
          tree_hide_approval_def)
qed

lemma getComments_hidden:
  "getComments postId page limit (store_hide_approval s)
     = response_hide_approval (getComments postId page limit s)"
  by (auto simp: getComments_def Post_findByPk_hidden Comment_findAndCountAll_hidden Let_def
      response_hide_approval_def json_def internal_error_def
      split: sum.splits option.splits jsnum.splits)

lemma getCommentsWithAuthors_hidden:
  "getCommentsWithAuthors p (store_hide_approval s) = map hide_approval (getCommentsWithAuthors p s)"
  by (simp add: getCommentsWithAuthors_def filter_map_invariant sort_key_map)

lemma Post_save_viewCount_hidden:
  "Post_save_viewCount p now (store_hide_approval s)
     = map_sum id (map_prod id store_hide_approval) (Post_save_viewCount p now s)"
  by (simp add: Post_save_viewCount_def store_hide_approval_def)

lemma getPostById_hidden:
  "getPostById user ident now (store_hide_approval s)
     = map_prod response_hide_approval store_hide_approval (getPostById user ident now s)"
  by (auto simp: getPostById_def Post_findByPk_hidden Post_save_viewCount_hidden Let_def
      Like_count_hidden Like_findOne_hidden getCommentsWithAuthors_hidden
      response_hide_approval_def json_def internal_error_def
      split: sum.splits option.splits)

lemma post_with_counts_hidden:
  "post_with_counts user (store_hide_approval s) = post_with_counts user s"
  by (rule ext) (simp add: post_with_counts_def Comment_count_hidden Like_count_hidden
      Like_findOne_hidden filter_map_invariant comp_def cong: option.case_cong)

lemma getPosts_hidden:
  "getPosts X user q (store_hide_approval s) = getPosts X user q s"
proof -
  have "Post_findAndCountAll X w l k c d (store_hide_approval s) = Post_findAndCountAll X w l k c d s"
    for w l k c d
    by (simp add: Post_findAndCountAll_def cong: if_cong option.case_cong)
  then show ?thesis
    by (simp add: getPosts_def post_with_counts_hidden cong: sum.case_cong)
qed

text \<open>
  Claim C10. The flag \<open>isApproved\<close> influences no read path. For two stores that
  differ only in the \<open>isApproved\<close> values of their comments, \<open>getComments\<close> and
  \<open>getPostById\<close> return the same comments in the same order (the responses agree
  once the flag itself is hidden, so an unapproved comment is returned exactly where an
  approved one would be), the stores after \<open>getPostById\<close> still differ in the flag
  only, and \<open>getPosts\<close> returns the very same result. A created comment carries the
  default, \<open>isApproved = true\<close>.
\<close>

theorem isApproved_is_never_read:
  "(differ_in_approval_only s t
    \<longrightarrow> response_hide_approval (getComments postId page limit s)
          = response_hide_approval (getComments postId page limit t)
        \<and> response_hide_approval (fst (getPostById user ident now s))
          = response_hide_approval (fst (getPostById user ident now t))
        \<and> differ_in_approval_only (snd (getPostById user ident now s))
             (snd (getPostById user ident now t))
        \<and> getPosts X user q s = getPosts X user q t)
   \<and> (status (fst (createComment user content pid parentId now s)) = 201
    \<longrightarrow> (\<exists>c. comments (snd (createComment user content pid parentId now s)) = comments s @ [c]
            \<and> comment_isApproved c))"
proof (intro conjI impI)
  assume d: "differ_in_approval_only s t"
  then have e: "store_hide_approval s = store_hide_approval t"
    by (simp add: differ_in_approval_only_def)
  have "response_hide_approval (getComments postId page limit s)
          = getComments postId page limit (store_hide_approval s)"
    by (simp add: getComments_hidden)
  also have "\<dots> = response_hide_approval (getComments postId page limit t)"
    by (simp add: e getComments_hidden)
  finally show "response_hide_approval (getComments postId page limit s)
          = response_hide_approval (getComments postId page limit t)" .
  have g: "map_prod response_hide_approval store_hide_approval (getPostById user ident now s)
         = map_prod response_hide_approval store_hide_approval (getPostById user ident now t)"
    using e getPostById_hidden [of user ident now s] getPostById_hidden [of user ident now t]
    by simp
  from g have "fst (map_prod response_hide_approval store_hide_approval
                      (getPostById user ident now s))
             = fst (map_prod response_hide_approval store_hide_approval
                      (getPostById user ident now t))"
    by simp
  then show "response_hide_approval (fst (getPostById user ident now s))
          = response_hide_approval (fst (getPostById user ident now t))"
    by simp
  from g have "snd (map_prod response_hide_approval store_hide_approval
                      (getPostById user ident now s))
             = snd (map_prod response_hide_approval store_hide_approval
                      (getPostById user ident now t))"
    by simp
  then show "differ_in_approval_only (snd (getPostById user ident now s))
             (snd (getPostById user ident now t))"
    by (simp add: differ_in_approval_only_def)
  show "getPosts X user q s = getPosts X user q t"
    using e getPosts_hidden [of X user q s] getPosts_hidden [of X user q t]
    by simp
next
  assume "status (fst (createComment user content pid parentId now s)) = 201"
  then show "\<exists>c. comments (snd (createComment user content pid parentId now s)) = comments s @ [c]
            \<and> comment_isApproved c"
    using createComment_status_201 [of user content pid parentId now s] by blast
qed

theorem isApproved_is_never_read_witness:
  "differ_in_approval_only blog (store_hide_approval blog)
   \<and> blog \<noteq> store_hide_approval blog
   \<and> response_hide_approval (getComments ''1'' None None blog)
       = response_hide_approval (getComments ''1'' None None (store_hide_approval blog))
   \<and> response_hide_approval (fst (getPostById (Some bob) ''1'' 300 blog))
       = response_hide_approval (fst (getPostById (Some bob) ''1'' 300 (store_hide_approval blog)))
   \<and> getPosts plain (Some bob) no_query blog
       = getPosts plain (Some bob) no_query (store_hide_approval blog)
   \<and> (\<exists>c. comments (snd (createComment (Some bob) ''Reply'' 1 (Some 1) 300 blog))
            = comments blog @ [c]
          \<and> comment_isApproved c)"
proof -
  have d: "differ_in_approval_only blog (store_hide_approval blog)"
    by (simp add: differ_in_approval_only_def store_hide_approval_def hide_approval_def)
  have "comments blog \<noteq> comments (store_hide_approval blog)"
    by (simp add: blog_def store_hide_approval_def hide_approval_def comment3_def)
  then have n: "blog \<noteq> store_hide_approval blog"
    by metis
  have one: "comment_postId comment1 = 1"
    by (simp add: comment1_def)
  have c: "status (fst (createComment (Some bob) ''Reply'' 1 (Some 1) 300 blog)) = 201"
    using createComment_with_parent [OF find_post1 find_comment1 one, of "''Reply''" bob 300]
    by simp
  show ?thesis
    using d n c
      isApproved_is_never_read [of blog "store_hide_approval blog" "''1''" None None
        "Some bob" "''1''" 300 plain no_query "''Reply''" 1 "Some 1"]
    by simp
qed

end
